theory Spec2Isabelle
  imports Main
begin

section \<open>JavaScript values used by the orchestration file\<close>

text \<open>
  Strings are lists of code units: \<open>length\<close> is JavaScript's \<open>.length\<close> and
  \<open>take n\<close> is \<open>.slice(0, n)\<close>.

  \<open>join\<close> is \<open>Array.prototype.join\<close> on an array of strings.
\<close>

fun join :: "string \<Rightarrow> string list \<Rightarrow> string" where
  "join sep [] = []"
| "join sep [x] = x"
| "join sep (x # y # ys) = x @ sep @ join sep (y # ys)"

text \<open>
  A parsed JSON value. A number is held as the text that \<open>String(n)\<close> gives for it.
  The members of an object are its own properties in creation order.
\<close>

datatype json =
    JNull
  | JBool bool
  | JNum string
  | JStr string
  | JArr "json list"
  | JObj "(string \<times> json) list"

text \<open>What a handler can have thrown at it: a failed call to a collaborator, or a \<open>TypeError\<close>.\<close>

datatype js_error = ApiError | TypeError

text \<open>
  \<open>String(v)\<close>. An array is joined with commas, a \<open>null\<close> element giving the empty
  string and every other element its own \<open>String\<close>. A plain object gives
  \<open>[object Object]\<close> through the inherited \<open>toString\<close>; when the object has an own
  member named \<open>toString\<close> that member hides the inherited method, it is not callable,
  \<open>valueOf\<close> yields no primitive either, and the conversion throws a \<open>TypeError\<close>.
\<close>

fun js_String :: "json \<Rightarrow> js_error + string"
  and js_elems :: "json list \<Rightarrow> js_error + string list" where
  "js_String JNull = Inr ''null''"
| "js_String (JBool b) = Inr (if b then ''true'' else ''false'')"
| "js_String (JNum s) = Inr s"
| "js_String (JStr s) = Inr s"
| "js_String (JArr xs) =
     (case js_elems xs of Inl err \<Rightarrow> Inl err | Inr ss \<Rightarrow> Inr (join '','' ss))"
| "js_String (JObj ms) =
     (if ''toString'' \<in> set (map fst ms) then Inl TypeError else Inr ''[object Object]'')"
| "js_elems [] = Inr []"
| "js_elems (JNull # xs) =
     (case js_elems xs of Inl err \<Rightarrow> Inl err | Inr ss \<Rightarrow> Inr ([] # ss))"
| "js_elems (x # xs) =
     (case js_String x of
        Inl err \<Rightarrow> Inl err
      | Inr s \<Rightarrow> (case js_elems xs of Inl err \<Rightarrow> Inl err | Inr ss \<Rightarrow> Inr (s # ss)))"

type_synonym object = "(string \<times> json) list"

text \<open>
  The property names every plain object inherits from \<open>Object.prototype\<close>. The
  \<open>in\<close> operator answers true for them on any object that \<open>JSON.parse\<close> returns.
\<close>

definition Object_prototype_keys :: "string list" where
  "Object_prototype_keys =
     [''constructor'', ''__defineGetter__'', ''__defineSetter__'', ''hasOwnProperty'',
      ''__lookupGetter__'', ''__lookupSetter__'', ''isPrototypeOf'',
      ''propertyIsEnumerable'', ''toString'', ''valueOf'', ''__proto__'',
      ''toLocaleString'']"

definition own_keys :: "object \<Rightarrow> string list" where
  "own_keys obj = map fst obj"

text \<open>\<open>key in obj\<close>: an own property, or one found on the prototype.\<close>

definition js_in :: "string \<Rightarrow> object \<Rightarrow> bool" where
  "js_in k obj = (k \<in> set (own_keys obj) \<or> k \<in> set Object_prototype_keys)"

text \<open>
  Creating or overwriting an own data property: an existing key keeps its place, a new
  key goes last. \<open>JSON.parse\<close> builds its result this way from the members of the text,
  and \<open>obj[k] = v\<close> does the same for a key that \<open>k in obj\<close> does not find.
\<close>

fun set_property :: "object \<Rightarrow> string \<Rightarrow> json \<Rightarrow> object" where
  "set_property [] k v = [(k, v)]"
| "set_property ((k', v') # rest) k v =
     (if k' = k then (k, v) # rest else (k', v') # set_property rest k v)"

definition JSON_object :: "(string \<times> json) list \<Rightarrow> object" where
  "JSON_object members = foldl (\<lambda>obj (k, v). set_property obj k v) [] members"

text \<open>
  \<open>Object.entries\<close> lists the array-index keys first, in ascending numeric order, and
  then the other keys in creation order. An array index is the canonical decimal form
  of an integer below \<open>2^32 - 1\<close>.
\<close>

definition is_digit :: "char \<Rightarrow> bool" where
  "is_digit c = (c \<in> set ''0123456789'')"

definition dec_value :: "string \<Rightarrow> int" where
  "dec_value s = foldl (\<lambda>n c. 10 * n + (of_char c - 48)) 0 s"

definition array_index :: "string \<Rightarrow> int option" where
  "array_index s =
     (if s = [] then None
      else if list_all is_digit s then
        (if hd s = CHR ''0'' \<and> 1 < length s then None
         else if dec_value s < 4294967295 then Some (dec_value s)
         else None)
      else None)"

definition Object_entries :: "object \<Rightarrow> (string \<times> json) list" where
  "Object_entries obj =
     sort_key (\<lambda>(k, v). the (array_index k)) (filter (\<lambda>(k, v). array_index k \<noteq> None) obj)
     @ filter (\<lambda>(k, v). array_index k = None) obj"

section \<open>Rendering a sheet for the context\<close>

text \<open>
  \<open>row[index] || ''\<close>: a cell that is missing (the row is shorter than the header
  list) or empty gives the empty string.
\<close>

definition cell_or_empty :: "string list \<Rightarrow> nat \<Rightarrow> string" where
  "cell_or_empty row index =
     (if index < length row then (if row ! index = [] then [] else row ! index) else [])"

text \<open>\<open>headers.map((header, index) => ...)\<close>, with the running index.\<close>

fun map_index :: "(string \<Rightarrow> nat \<Rightarrow> string) \<Rightarrow> nat \<Rightarrow> string list \<Rightarrow> string list" where
  "map_index f index [] = []"
| "map_index f index (header # rest) = f header index # map_index f (Suc index) rest"

definition rowData :: "string list \<Rightarrow> string list \<Rightarrow> string" where
  "rowData headers row =
     join '', '' (map_index (\<lambda>header index. header @ '': '' @ cell_or_empty row index) 0 headers)"

text \<open>\<open>rows.forEach(row => allContext += rowData + '\n')\<close>.\<close>

fun rows_forEach :: "string list \<Rightarrow> string \<Rightarrow> string list list \<Rightarrow> string" where
  "rows_forEach headers allContext [] = allContext"
| "rows_forEach headers allContext (row # rows) =
     rows_forEach headers (allContext @ rowData headers row @ ''\<newline>'') rows"

section \<open>Limiting the length of the assistant's message\<close>

definition MAX_LENGTH :: nat where
  "MAX_LENGTH = 500"

definition limit_length :: "string \<Rightarrow> string" where
  "limit_length assistantMessageRaw =
     (if length assistantMessageRaw > MAX_LENGTH
      then take MAX_LENGTH assistantMessageRaw @ ''...''
      else assistantMessageRaw)"

section \<open>Tables, settings and the outside world\<close>

record Message =
  msg_sessionId :: string
  role :: string
  content :: string
  msg_timestamp :: nat

record ChatVariable =
  sessionId :: string
  variableName :: string
  variableValue :: string
  timestamp :: nat

text \<open>The settings row. An array column and the target sheet can be null.\<close>

record GlobalSettings =
  prompt :: string
  knowledgeBaseSheetIds :: "string list option"
  knowledgeBaseUrls :: "string list option"
  extractionHeaders :: "string list option"
  targetSpreadsheetId :: "string option"

text \<open>What the handlers send to the socket.\<close>

datatype event =
    Typing string
  | StopTyping string
  | Response string
  | Error string
  | SessionDeleted string

text \<open>
  The state the handlers act on: the four tables, and what has gone out so far:
  the requests made to the completion backend for an extraction (instruction and
  transcript), the rows handed to the tabular backend's append call (target sheet and
  row), and the events sent to the socket. \<open>created\<close> counts the rows created; it
  numbers the readings of the clock. Database operations are taken to succeed.
\<close>

record world =
  sessions :: "string list"
  messages :: "Message list"
  variables :: "ChatVariable list"
  settings :: "GlobalSettings option"
  created :: nat
  extraction_requests :: "(string \<times> string) list"
  appended_rows :: "(string \<times> string list) list"
  emitted :: "event list"

text \<open>
  The collaborators, as they answer during one handler: the clock (the reading at the
  n-th row creation), the tabular read (the sheet's values, absent for an empty sheet),
  the page fetch with its title and text, the chat completion (the content of the first
  choice, which can be null) and the extraction completion with \<open>JSON.parse\<close> applied.
  The extraction request asks for \<open>response_format: json_object\<close>, so the parsed
  content is an object: the answer is the list of its members in the order of the text,
  and \<open>Inl\<close> when the call or the parse throws. Cells of a sheet are strings, as the
  tabular backend renders them by default.
\<close>

record env =
  clock :: "nat \<Rightarrow> nat"
  values_get :: "string \<Rightarrow> js_error + string list list option"
  fetchWebpageContent :: "string \<Rightarrow> js_error + (string \<times> string)"
  chat_create :: "(string \<times> string) list \<Rightarrow> js_error + string option"
  extraction_create :: "string \<Rightarrow> string \<Rightarrow> js_error + (string \<times> json) list"

definition emit :: "event \<Rightarrow> world \<Rightarrow> world" where
  "emit ev w = w\<lparr>emitted := emitted w @ [ev]\<rparr>"

definition Message_create :: "env \<Rightarrow> string \<Rightarrow> string \<Rightarrow> string \<Rightarrow> world \<Rightarrow> world" where
  "Message_create e sid r c w =
     w\<lparr>messages := messages w @
          [\<lparr>msg_sessionId = sid, role = r, content = c, msg_timestamp = clock e (created w)\<rparr>],
       created := Suc (created w)\<rparr>"

text \<open>\<open>order: [['timestamp', 'ASC']]\<close>; rows with equal timestamps stay in creation order.\<close>

definition Message_findAll :: "string \<Rightarrow> world \<Rightarrow> Message list" where
  "Message_findAll sid w =
     sort_key msg_timestamp (filter (\<lambda>m. msg_sessionId m = sid) (messages w))"

definition Message_destroy :: "string \<Rightarrow> world \<Rightarrow> world" where
  "Message_destroy sid w = w\<lparr>messages := filter (\<lambda>m. msg_sessionId m \<noteq> sid) (messages w)\<rparr>"

definition ChatSession_destroy :: "string \<Rightarrow> world \<Rightarrow> world" where
  "ChatSession_destroy sid w = w\<lparr>sessions := filter (\<lambda>s. s \<noteq> sid) (sessions w)\<rparr>"

definition ChatVariable_create :: "env \<Rightarrow> string \<Rightarrow> string \<Rightarrow> string \<Rightarrow> world \<Rightarrow> world" where
  "ChatVariable_create e sid name val w =
     w\<lparr>variables := variables w @
          [\<lparr>sessionId = sid, variableName = name, variableValue = val,
            timestamp = clock e (created w)\<rparr>],
       created := Suc (created w)\<rparr>"

text \<open>
  \<open>order: [['timestamp', 'DESC']]\<close>. Among rows with equal timestamps the database
  is free to choose; the model puts the row created last first.
\<close>

definition ChatVariable_findAll :: "string \<Rightarrow> world \<Rightarrow> ChatVariable list" where
  "ChatVariable_findAll sid w =
     rev (sort_key timestamp (filter (\<lambda>v. sessionId v = sid) (variables w)))"

section \<open>Knowledge context\<close>

definition fetchSheetData :: "env \<Rightarrow> string \<Rightarrow> js_error + string list list option" where
  "fetchSheetData e sheetId = values_get e sheetId"

text \<open>
  The loop over the sheet ids. A fetch that throws is caught inside the loop and the
  loop goes on; a sheet without values adds nothing.
\<close>

fun sheets_loop :: "env \<Rightarrow> string \<Rightarrow> string list \<Rightarrow> string" where
  "sheets_loop e allContext [] = allContext"
| "sheets_loop e allContext (sheetId # rest) =
     sheets_loop e
       (case fetchSheetData e sheetId of
          Inl err \<Rightarrow> allContext
        | Inr None \<Rightarrow> allContext
        | Inr (Some []) \<Rightarrow> allContext
        | Inr (Some (headers # rows)) \<Rightarrow>
            rows_forEach headers
              (allContext @ ''\<newline>Data from Sheet '' @ sheetId @ '':\<newline>'') rows)
       rest"

definition formatAllSheetDataForContext :: "env \<Rightarrow> string list option \<Rightarrow> string" where
  "formatAllSheetDataForContext e sheetIds =
     (case sheetIds of
        None \<Rightarrow> []
      | Some [] \<Rightarrow> []
      | Some ids \<Rightarrow> sheets_loop e ''Knowledge Base Information:\<newline>'' ids)"

fun urls_loop :: "env \<Rightarrow> string \<Rightarrow> string list \<Rightarrow> string" where
  "urls_loop e allContext [] = allContext"
| "urls_loop e allContext (url # rest) =
     urls_loop e
       (case fetchWebpageContent e url of
          Inl err \<Rightarrow> allContext
        | Inr (title, text) \<Rightarrow>
            allContext @ ''\<newline>Content from '' @ url @ '':\<newline>''
              @ ''Title: '' @ title @ ''\<newline>''
              @ ''Content: '' @ text @ ''\<newline>'')
       rest"

definition formatAllWebpageContentForContext :: "env \<Rightarrow> string list option \<Rightarrow> string" where
  "formatAllWebpageContentForContext e urls =
     (case urls of
        None \<Rightarrow> []
      | Some [] \<Rightarrow> []
      | Some us \<Rightarrow> urls_loop e ''Webpage Knowledge Base:\<newline>'' us)"

text \<open>
  The same two loops with the order of their fetches written down. An iteration starts
  the fetch of its reference and, by \<open>await\<close>, goes on only when that fetch has
  settled, with a value or with an error; the loop reaches the next reference after that.
\<close>

datatype fetch_event = Started string | Settled string

fun sheets_loop_traced ::
  "env \<Rightarrow> string \<times> fetch_event list \<Rightarrow> string list \<Rightarrow> string \<times> fetch_event list" where
  "sheets_loop_traced e (allContext, log) [] = (allContext, log)"
| "sheets_loop_traced e (allContext, log) (sheetId # rest) =
     sheets_loop_traced e
       (case fetchSheetData e sheetId of
          Inl err \<Rightarrow> allContext
        | Inr None \<Rightarrow> allContext
        | Inr (Some []) \<Rightarrow> allContext
        | Inr (Some (headers # rows)) \<Rightarrow>
            rows_forEach headers
              (allContext @ ''\<newline>Data from Sheet '' @ sheetId @ '':\<newline>'') rows,
        log @ [Started sheetId, Settled sheetId])
       rest"

fun urls_loop_traced ::
  "env \<Rightarrow> string \<times> fetch_event list \<Rightarrow> string list \<Rightarrow> string \<times> fetch_event list" where
  "urls_loop_traced e (allContext, log) [] = (allContext, log)"
| "urls_loop_traced e (allContext, log) (url # rest) =
     urls_loop_traced e
       (case fetchWebpageContent e url of
          Inl err \<Rightarrow> allContext
        | Inr (title, text) \<Rightarrow>
            allContext @ ''\<newline>Content from '' @ url @ '':\<newline>''
              @ ''Title: '' @ title @ ''\<newline>''
              @ ''Content: '' @ text @ ''\<newline>'',
        log @ [Started url, Settled url])
       rest"

text \<open>
  The fetches that have started and not settled after a log, and the largest number of
  them at any moment of the log.
\<close>

fun outstanding_from :: "string list \<Rightarrow> fetch_event list \<Rightarrow> string list" where
  "outstanding_from out [] = out"
| "outstanding_from out (Started r # evs) = outstanding_from (out @ [r]) evs"
| "outstanding_from out (Settled r # evs) = outstanding_from (remove1 r out) evs"

definition outstanding :: "fetch_event list \<Rightarrow> string list" where
  "outstanding log = outstanding_from [] log"

fun peak_from :: "string list \<Rightarrow> nat \<Rightarrow> fetch_event list \<Rightarrow> nat" where
  "peak_from out p [] = p"
| "peak_from out p (Started r # evs) = peak_from (out @ [r]) (max p (Suc (length out))) evs"
| "peak_from out p (Settled r # evs) = peak_from (remove1 r out) p evs"

definition peak_outstanding :: "fetch_event list \<Rightarrow> nat" where
  "peak_outstanding log = peak_from [] 0 log"

section \<open>The message handler\<close>

definition non_empty :: "string list option \<Rightarrow> bool" where
  "non_empty xs = (case xs of None \<Rightarrow> False | Some l \<Rightarrow> length l > 0)"

text \<open>
  The list sent to the completion backend: the history, then \<open>unshift\<close> of the system
  prompt, of the sheet context and of the page context, each in front of what is
  already there.
\<close>

definition formattedMessages :: "env \<Rightarrow> GlobalSettings \<Rightarrow> Message list \<Rightarrow> (string \<times> string) list" where
  "formattedMessages e globalSettings history =
     (let f0 = map (\<lambda>msg. (role msg, content msg)) history;
          f1 = (''system'', prompt globalSettings) # f0;
          f2 = (if non_empty (knowledgeBaseSheetIds globalSettings)
                then (''system'', ''Additional Context:\<newline>''
                        @ formatAllSheetDataForContext e (knowledgeBaseSheetIds globalSettings)) # f1
                else f1);
          f3 = (if non_empty (knowledgeBaseUrls globalSettings)
                then (''system'', ''Additional Context:\<newline>''
                        @ formatAllWebpageContentForContext e (knowledgeBaseUrls globalSettings)) # f2
                else f2)
      in f3)"

text \<open>
  \<open>socket.on('message')\<close> for the socket \<open>socket_id\<close> and the text \<open>message\<close>. Whatever
  is thrown after the session was found (no settings row, the completion call, a null
  content) ends in the catch block, which sends the error event.
\<close>

definition on_message :: "env \<Rightarrow> string \<Rightarrow> string \<Rightarrow> world \<Rightarrow> world" where
  "on_message e socket_id message w =
     (if socket_id \<notin> set (sessions w) then w
      else
        let w1 = Message_create e socket_id ''user'' message w;
            history = Message_findAll socket_id w1
        in case settings w1 of
             None \<Rightarrow> emit (Error ''An error occurred'') w1
           | Some globalSettings \<Rightarrow>
               (let w2 = emit (Typing ''assistant'') w1
                in case chat_create e (formattedMessages e globalSettings history) of
                     Inl err \<Rightarrow> emit (Error ''An error occurred'') w2
                   | Inr None \<Rightarrow> emit (Error ''An error occurred'') w2
                   | Inr (Some assistantMessageRaw) \<Rightarrow>
                       (let assistantMessage = limit_length assistantMessageRaw;
                            w3 = emit (StopTyping ''assistant'') w2;
                            w4 = Message_create e socket_id ''assistant'' assistantMessage w3
                        in emit (Response assistantMessage) w4)))"

section \<open>Extraction and export at teardown\<close>

definition extractionPrompt :: "string list \<Rightarrow> string" where
  "extractionPrompt headers =
     ''Analyze the following chat conversation and extract information for these specific fields: ''
     @ join '', '' headers @ ''. \<newline>''
     @ ''Format the response as a JSON object where each key must exactly match one of these field names: ''
     @ join '', '' headers @ ''. \<newline>''
     @ ''If a field's information is not found in the conversation, set its value to an empty string.\<newline>''
     @ ''Only include the specified fields in the response.''"

text \<open>\<open>globalSettings?.extractionHeaders || []\<close>.\<close>

definition configured_headers :: "world \<Rightarrow> string list" where
  "configured_headers w =
     (case settings w of
        None \<Rightarrow> []
      | Some globalSettings \<Rightarrow>
          (case extractionHeaders globalSettings of None \<Rightarrow> [] | Some hs \<Rightarrow> hs))"

text \<open>
  \<open>headers.filter(header => !(header in extractedVariables))\<close>, and the empty string
  stored under each header the filter kept.
\<close>

definition missingHeaders :: "string list \<Rightarrow> object \<Rightarrow> string list" where
  "missingHeaders headers extractedVariables =
     filter (\<lambda>header. \<not> js_in header extractedVariables) headers"

definition add_missing :: "string list \<Rightarrow> object \<Rightarrow> object" where
  "add_missing headers extractedVariables =
     foldl (\<lambda>obj header. set_property obj header (JStr []))
       extractedVariables (missingHeaders headers extractedVariables)"

text \<open>
  The loop over \<open>Object.entries(extractedVariables)\<close>: one \<open>ChatVariable.create\<close> for
  each entry, with \<open>String(variableValue)\<close> as value. When the conversion throws, the
  loop ends there: the records created so far stay and the error goes to the caller.
\<close>

fun save_variables ::
  "env \<Rightarrow> string \<Rightarrow> (string \<times> json) list \<Rightarrow> world \<Rightarrow> js_error option \<times> world" where
  "save_variables e sid [] w = (None, w)"
| "save_variables e sid ((name, v) # entries) w =
     (case js_String v of
        Inl err \<Rightarrow> (Some err, w)
      | Inr val \<Rightarrow> save_variables e sid entries (ChatVariable_create e sid name val w))"

text \<open>
  \<open>analyzeChatForVariables\<close> gives the object it returns, or the error it rethrows,
  together with the state it leaves.
\<close>

definition analyzeChatForVariables :: "env \<Rightarrow> string \<Rightarrow> world \<Rightarrow> (js_error + object) \<times> world" where
  "analyzeChatForVariables e sid w =
     (let headers = configured_headers w
      in if length headers = 0 then (Inr [], w)
         else
           let chatText = join ''\<newline>'' (map content (Message_findAll sid w));
               w1 = w\<lparr>extraction_requests :=
                        extraction_requests w @ [(extractionPrompt headers, chatText)]\<rparr>
           in case extraction_create e (extractionPrompt headers) chatText of
                Inl err \<Rightarrow> (Inl err, w1)
              | Inr members \<Rightarrow>
                  (let extractedVariables = add_missing headers (JSON_object members)
                   in case save_variables e sid (Object_entries extractedVariables) w1 of
                        (Some err, w2) \<Rightarrow> (Inl err, w2)
                      | (None, w2) \<Rightarrow> (Inr extractedVariables, w2)))"

text \<open>\<open>!globalSettings?.targetSpreadsheetId\<close>: no row, a null target or an empty one.\<close>

definition target_of :: "world \<Rightarrow> string option" where
  "target_of w =
     (case settings w of
        None \<Rightarrow> None
      | Some globalSettings \<Rightarrow>
          (case targetSpreadsheetId globalSettings of
             None \<Rightarrow> None
           | Some t \<Rightarrow> (if t = [] then None else Some t)))"

text \<open>
  \<open>headers.map(header => ...)\<close> over the records in descending order of timestamp:
  the first record with the header's name gives the cell.
\<close>

definition row_for :: "string list \<Rightarrow> ChatVariable list \<Rightarrow> string list" where
  "row_for headers vars =
     map (\<lambda>header.
            case find (\<lambda>v. variableName v = header) vars of
              Some variable \<Rightarrow> variableValue variable
            | None \<Rightarrow> [])
       headers"

text \<open>
  \<open>writeVariablesToSpreadsheet\<close>. A failure of the append call is caught and logged
  inside the function and changes nothing else, so the state records the row handed to
  the call.
\<close>

definition writeVariablesToSpreadsheet :: "string \<Rightarrow> world \<Rightarrow> world" where
  "writeVariablesToSpreadsheet sid w =
     (case target_of w of
        None \<Rightarrow> w
      | Some target \<Rightarrow>
          (let vars = ChatVariable_findAll sid w
           in if length vars = 0 then w
              else w\<lparr>appended_rows :=
                       appended_rows w @ [(target, row_for (configured_headers w) vars)]\<rparr>))"

text \<open>
  The steps both teardown handlers run inside their \<open>try\<close>: extraction, export, removal
  of the messages and of the session. The result says whether something was thrown.
\<close>

definition teardown :: "env \<Rightarrow> string \<Rightarrow> world \<Rightarrow> js_error option \<times> world" where
  "teardown e sid w =
     (case analyzeChatForVariables e sid w of
        (Inl err, w1) \<Rightarrow> (Some err, w1)
      | (Inr extracted, w1) \<Rightarrow>
          (None, ChatSession_destroy sid (Message_destroy sid (writeVariablesToSpreadsheet sid w1))))"

text \<open>
  \<open>socket.on('deleteSession')\<close>. The payload \<open>data\<close> can be absent, can be an object
  without \<open>sessionId\<close>, or can name a session. Reading \<open>data.sessionId\<close> happens
  before the \<open>try\<close>: with no payload it throws a \<open>TypeError\<close> that nothing catches,
  and the handler does nothing else. Otherwise the session is
  \<open>data.sessionId || socket.id\<close>.
\<close>

definition session_of :: "string option \<Rightarrow> string \<Rightarrow> string" where
  "session_of data_sessionId socket_id =
     (case data_sessionId of
        None \<Rightarrow> socket_id
      | Some s \<Rightarrow> (if s = [] then socket_id else s))"

definition on_deleteSession ::
  "env \<Rightarrow> string \<Rightarrow> string option option \<Rightarrow> world \<Rightarrow> js_error + world" where
  "on_deleteSession e socket_id data w =
     (case data of
        None \<Rightarrow> Inl TypeError
      | Some data_sessionId \<Rightarrow>
          (let sid = session_of data_sessionId socket_id
           in case teardown e sid w of
                (None, w') \<Rightarrow> Inr (emit (SessionDeleted sid) w')
              | (Some err, w') \<Rightarrow> Inr (emit (Error ''Error deleting session'') w')))"

text \<open>\<open>socket.on('disconnect')\<close>: an error is caught and logged, nothing is sent.\<close>

definition on_disconnect :: "env \<Rightarrow> string \<Rightarrow> world \<Rightarrow> world" where
  "on_disconnect e socket_id w = snd (teardown e socket_id w)"

section \<open>A concrete configuration\<close>

text \<open>
  Two extraction fields, a target sheet, and two knowledge sheets of which the first
  cannot be read. The extraction backend finds a name and an address in a transcript
  that is not empty, and nothing in an empty one.
\<close>

definition example_settings :: GlobalSettings where
  "example_settings =
     \<lparr>prompt = ''You are a helpful assistant.'',
      knowledgeBaseSheetIds = Some [''sheetA'', ''sheetB''],
      knowledgeBaseUrls = Some [],
      extractionHeaders = Some [''name'', ''email''],
      targetSpreadsheetId = Some ''target''\<rparr>"

definition example_world :: world where
  "example_world =
     \<lparr>sessions = [''sock''], messages = [], variables = [],
      settings = Some example_settings, created = 0,
      extraction_requests = [], appended_rows = [], emitted = []\<rparr>"

definition example_env :: env where
  "example_env =
     \<lparr>clock = (\<lambda>n. 1000 + n),
      values_get = (\<lambda>sheetId.
        if sheetId = ''sheetA'' then Inl ApiError
        else Inr (Some [[''item'', ''price''], [''tea'', ''3''], [''milk'']])),
      fetchWebpageContent = (\<lambda>url. Inl ApiError),
      chat_create = (\<lambda>ms. Inr (Some ''Hello'')),
      extraction_create = (\<lambda>instruction transcript.
        if transcript = [] then Inr []
        else Inr [(''name'', JStr ''Ann''), (''email'', JStr ''a@x.com'')])\<rparr>"

text \<open>The same collaborators with a completion backend that answers at length, or fails.\<close>

definition long_reply_env :: env where
  "long_reply_env = example_env\<lparr>chat_create := (\<lambda>ms. Inr (Some (replicate 501 (CHR ''a''))))\<rparr>"

definition failing_env :: env where
  "failing_env = example_env\<lparr>chat_create := (\<lambda>ms. Inl ApiError)\<rparr>"

text \<open>
  A session with three records: the name was written once, and later the name and the
  address were written again within one millisecond.
\<close>

definition recorded_world :: world where
  "recorded_world =
     example_world\<lparr>variables :=
       [\<lparr>sessionId = ''sock'', variableName = ''name'', variableValue = ''Bob'', timestamp = 1\<rparr>,
        \<lparr>sessionId = ''sock'', variableName = ''email'', variableValue = ''a@x.com'', timestamp = 3\<rparr>,
        \<lparr>sessionId = ''sock'', variableName = ''name'', variableValue = ''Ann'', timestamp = 3\<rparr>]\<rparr>"

text \<open>
  An extraction backend that answers with a key nobody configured, one that answers
  with the empty object, and a field list that holds a name every object inherits.
\<close>

definition extra_key_env :: env where
  "extra_key_env =
     example_env\<lparr>extraction_create :=
       (\<lambda>instruction transcript. Inr [(''name'', JStr ''Ann''), (''age'', JNum ''30'')])\<rparr>"

definition inherited_name_world :: world where
  "inherited_name_world =
     example_world\<lparr>settings :=
       Some (example_settings\<lparr>extractionHeaders := Some [''constructor'', ''name'']\<rparr>)\<rparr>"

definition empty_answer_env :: env where
  "empty_answer_env = example_env\<lparr>extraction_create := (\<lambda>instruction transcript. Inr [])\<rparr>"

text \<open>A session that holds one exchange.\<close>

definition chatted_world :: world where
  "chatted_world =
     example_world\<lparr>messages :=
       [\<lparr>msg_sessionId = ''sock'', role = ''user'', content = ''I am Ann, a@x.com'',
         msg_timestamp = 1\<rparr>,
        \<lparr>msg_sessionId = ''sock'', role = ''assistant'', content = ''Hello Ann'',
         msg_timestamp = 2\<rparr>]\<rparr>"

text \<open>
  What the \<open>deleteSession\<close> handler leaves of that session: the two fields recorded,
  one request made, one row exported, the confirmation sent, no message and no session.
\<close>

definition after_first_teardown :: world where
  "after_first_teardown =
     \<lparr>sessions = [], messages = [],
      variables =
        [\<lparr>sessionId = ''sock'', variableName = ''name'', variableValue = ''Ann'',
          timestamp = 1000\<rparr>,
         \<lparr>sessionId = ''sock'', variableName = ''email'', variableValue = ''a@x.com'',
          timestamp = 1001\<rparr>],
      settings = Some example_settings, created = 2,
      extraction_requests =
        [(extractionPrompt [''name'', ''email''], ''I am Ann, a@x.com\<newline>Hello Ann'')],
      appended_rows = [(''target'', [''Ann'', ''a@x.com''])],
      emitted = [SessionDeleted ''sock'']\<rparr>"

text \<open>
  An extraction backend whose answer holds, under \<open>name\<close>, an object with a member
  called \<open>toString\<close>.
\<close>

definition own_toString_env :: env where
  "own_toString_env =
     example_env\<lparr>extraction_create :=
       (\<lambda>instruction transcript. Inr [(''name'', JObj [(''toString'', JNum ''1'')])])\<rparr>"

section \<open>The message handler: reply, truncation and failure\<close>

lemma on_message_reply:
  assumes "socket_id \<in> set (sessions w)" and "settings w = Some gs"
    and "chat_create e (formattedMessages e gs
           (Message_findAll socket_id (Message_create e socket_id ''user'' message w)))
         = Inr (Some raw)"
  shows "on_message e socket_id message w =
         emit (Response (limit_length raw))
           (Message_create e socket_id ''assistant'' (limit_length raw)
             (emit (StopTyping ''assistant'')
               (emit (Typing ''assistant'') (Message_create e socket_id ''user'' message w))))"
  using assms by (simp add: on_message_def Message_create_def Let_def)

lemma on_message_failure:
  assumes "socket_id \<in> set (sessions w)" and "settings w = Some gs"
    and "chat_create e (formattedMessages e gs
           (Message_findAll socket_id (Message_create e socket_id ''user'' message w)))
         = Inl err"
  shows "on_message e socket_id message w =
         emit (Error ''An error occurred'')
           (emit (Typing ''assistant'') (Message_create e socket_id ''user'' message w))"
  using assms by (simp add: on_message_def Message_create_def Let_def)

text \<open>
  Claim C3. When the completion backend returns the string \<open>raw\<close>, the assistant
  message that is stored and the one sent in the response event are the same string:
  the first 500 characters of \<open>raw\<close> followed by three dots when \<open>raw\<close> is longer
  than 500, and \<open>raw\<close> itself otherwise.
\<close>

theorem assistant_message_truncated:
  assumes "socket_id \<in> set (sessions w)" and "settings w = Some gs"
    and "chat_create e (formattedMessages e gs
           (Message_findAll socket_id (Message_create e socket_id ''user'' message w)))
         = Inr (Some raw)"
  shows "messages (on_message e socket_id message w) =
           messages w @
           [\<lparr>msg_sessionId = socket_id, role = ''user'', content = message,
             msg_timestamp = clock e (created w)\<rparr>,
            \<lparr>msg_sessionId = socket_id, role = ''assistant'',
             content = (if length raw > 500 then take 500 raw @ ''...'' else raw),
             msg_timestamp = clock e (Suc (created w))\<rparr>]
         \<and> emitted (on_message e socket_id message w) =
           emitted w @
           [Typing ''assistant'', StopTyping ''assistant'',
            Response (if length raw > 500 then take 500 raw @ ''...'' else raw)]"
  unfolding on_message_reply [OF assms]
  by (simp add: emit_def Message_create_def limit_length_def MAX_LENGTH_def)

theorem assistant_message_truncated_witness:
  "''sock'' \<in> set (sessions example_world)
   \<and> settings example_world = Some example_settings
   \<and> emitted (on_message long_reply_env ''sock'' ''hi'' example_world) =
       [Typing ''assistant'', StopTyping ''assistant'',
        Response (replicate 500 (CHR ''a'') @ ''...'')]"
proof -
  have h1: "''sock'' \<in> set (sessions example_world)"
    by (simp add: example_world_def)
  have h2: "settings example_world = Some example_settings"
    by (simp add: example_world_def)
  have h3: "chat_create long_reply_env (formattedMessages long_reply_env example_settings
              (Message_findAll ''sock'' (Message_create long_reply_env ''sock'' ''user'' ''hi'' example_world)))
            = Inr (Some (replicate 501 (CHR ''a'')))"
    by (simp add: long_reply_env_def)
  have "emitted example_world = []"
    by (simp add: example_world_def)
  with assistant_message_truncated [OF h1 h2 h3] h1 h2 show ?thesis
    by simp
qed

text \<open>
  Claim C7. When the completion call fails, the handler sends the error event and the
  session has no assistant message that it did not have before.
\<close>

theorem completion_failure_surfaces:
  assumes "socket_id \<in> set (sessions w)" and "settings w = Some gs"
    and "chat_create e (formattedMessages e gs
           (Message_findAll socket_id (Message_create e socket_id ''user'' message w)))
         = Inl err"
  shows "emitted (on_message e socket_id message w) =
           emitted w @ [Typing ''assistant'', Error ''An error occurred'']
         \<and> filter (\<lambda>m. role m = ''assistant'') (messages (on_message e socket_id message w)) =
           filter (\<lambda>m. role m = ''assistant'') (messages w)"
  unfolding on_message_failure [OF assms]
  by (simp add: emit_def Message_create_def)

theorem completion_failure_surfaces_witness:
  "''sock'' \<in> set (sessions example_world)
   \<and> settings example_world = Some example_settings
   \<and> emitted (on_message failing_env ''sock'' ''hi'' example_world) =
       [Typing ''assistant'', Error ''An error occurred'']
   \<and> filter (\<lambda>m. role m = ''assistant'')
         (messages (on_message failing_env ''sock'' ''hi'' example_world)) = []"
proof -
  have h1: "''sock'' \<in> set (sessions example_world)"
    by (simp add: example_world_def)
  have h2: "settings example_world = Some example_settings"
    by (simp add: example_world_def)
  have h3: "chat_create failing_env (formattedMessages failing_env example_settings
              (Message_findAll ''sock'' (Message_create failing_env ''sock'' ''user'' ''hi'' example_world)))
            = Inl ApiError"
    by (simp add: failing_env_def)
  have "emitted example_world = []" and "messages example_world = []"
    by (simp_all add: example_world_def)
  with completion_failure_surfaces [OF h1 h2 h3] h1 h2 show ?thesis
    by simp
qed

text \<open>
  Claim C10. When the completion call fails, the user message stored at the start of
  the turn is still in the table: the table is the old one with that message added.
\<close>

theorem user_message_kept_on_failure:
  assumes "socket_id \<in> set (sessions w)" and "settings w = Some gs"
    and "chat_create e (formattedMessages e gs
           (Message_findAll socket_id (Message_create e socket_id ''user'' message w)))
         = Inl err"
  shows "messages (on_message e socket_id message w) =
           messages w @
           [\<lparr>msg_sessionId = socket_id, role = ''user'', content = message,
             msg_timestamp = clock e (created w)\<rparr>]"
  unfolding on_message_failure [OF assms]
  by (simp add: emit_def Message_create_def)

theorem user_message_kept_on_failure_witness:
  "''sock'' \<in> set (sessions example_world)
   \<and> settings example_world = Some example_settings
   \<and> messages (on_message failing_env ''sock'' ''hi'' example_world) =
       [\<lparr>msg_sessionId = ''sock'', role = ''user'', content = ''hi'', msg_timestamp = 1000\<rparr>]"
proof -
  have h1: "''sock'' \<in> set (sessions example_world)"
    by (simp add: example_world_def)
  have h2: "settings example_world = Some example_settings"
    by (simp add: example_world_def)
  have h3: "chat_create failing_env (formattedMessages failing_env example_settings
              (Message_findAll ''sock'' (Message_create failing_env ''sock'' ''user'' ''hi'' example_world)))
            = Inl ApiError"
    by (simp add: failing_env_def)
  have "messages example_world = []" and "created example_world = 0"
    and "clock failing_env 0 = 1000"
    by (simp_all add: example_world_def failing_env_def example_env_def)
  with user_message_kept_on_failure [OF h1 h2 h3] h1 h2 show ?thesis
    by simp
qed

section \<open>Sheet rows\<close>

lemma map_index_nth:
  "map_index f i hs = map (\<lambda>j. f (hs ! j) (i + j)) [0..<length hs]"
proof (induction hs arbitrary: i)
  case Nil
  then show ?case by simp
next
  case (Cons h hs)
  have "map (\<lambda>j. f ((h # hs) ! j) (i + j)) [0..<length (h # hs)] =
        f h i # map (\<lambda>j. f (hs ! j) (Suc i + j)) [0..<length hs]"
    by (simp add: upt_conv_Cons map_Suc_upt [symmetric] del: upt_Suc)
  with Cons show ?case by simp
qed

lemma cell_or_empty_eq: "cell_or_empty row i = (if i < length row then row ! i else [])"
  by (simp add: cell_or_empty_def)

lemma rowData_nth:
  "rowData headers row =
     join '', '' (map (\<lambda>i. headers ! i @ '': '' @ (if i < length row then row ! i else []))
                    [0..<length headers])"
  by (simp add: rowData_def map_index_nth cell_or_empty_eq)

lemma rows_forEach_concat:
  "rows_forEach headers ctx rows = ctx @ concat (map (\<lambda>row. rowData headers row @ ''\<newline>'') rows)"
  by (induction rows arbitrary: ctx) simp_all

text \<open>
  Claim C8. For a sheet whose values are the header row followed by the data rows, each
  data row gives one line: for every header, in order, the header, a colon and the cell
  at the header's position, the empty string where the row has no cell there; the
  pieces are joined with commas.
\<close>

theorem sheet_rows_rendered:
  assumes "fetchSheetData e sheetId = Inr (Some (headers # rows))"
  shows "formatAllSheetDataForContext e (Some [sheetId]) =
           ''Knowledge Base Information:\<newline>'' @
           ''\<newline>Data from Sheet '' @ sheetId @ '':\<newline>'' @
           concat (map (\<lambda>row.
                     join '', '' (map (\<lambda>i. headers ! i @ '': '' @
                                           (if i < length row then row ! i else []))
                                    [0..<length headers]) @ ''\<newline>'')
                   rows)"
  using assms
  by (simp add: formatAllSheetDataForContext_def rows_forEach_concat rowData_nth)


theorem sheet_rows_rendered_witness:
  "fetchSheetData example_env ''sheetB'' =
     Inr (Some ([''item'', ''price''] # [[''tea'', ''3''], [''milk'']]))
   \<and> formatAllSheetDataForContext example_env (Some [''sheetB'']) =
     ''Knowledge Base Information:\<newline>\<newline>Data from Sheet sheetB:\<newline>item: tea, price: 3\<newline>item: milk, price: \<newline>''"
proof -
  have h: "fetchSheetData example_env ''sheetB'' =
             Inr (Some ([''item'', ''price''] # [[''tea'', ''3''], [''milk'']]))"
    by (simp add: fetchSheetData_def example_env_def)
  have u: "[0..<2] = [0, Suc 0]"
    by (simp add: upt_conv_Cons)
  from sheet_rows_rendered [OF h] h show ?thesis
    by (simp add: u)
qed

section \<open>Partial failure of the knowledge sources\<close>

lemma sheets_loop_concat:
  "sheets_loop e ctx ids = ctx @ concat (map (\<lambda>sheetId. sheets_loop e [] [sheetId]) ids)"
proof (induction ids arbitrary: ctx)
  case Nil
  then show ?case by simp
next
  case (Cons s rest)
  have step: "sheets_loop e ctx [s] = ctx @ sheets_loop e [] [s]"
    by (simp add: rows_forEach_concat split: sum.splits option.splits list.splits)
  have "sheets_loop e ctx (s # rest) = sheets_loop e (sheets_loop e ctx [s]) rest"
    by simp
  also have "\<dots> = sheets_loop e ctx [s] @ concat (map (\<lambda>sheetId. sheets_loop e [] [sheetId]) rest)"
    by (rule Cons.IH)
  finally show ?case
    using step by simp
qed

lemma failed_sheet_adds_nothing:
  "fetchSheetData e sheetId = Inl err \<Longrightarrow> sheets_loop e [] [sheetId] = []"
  by simp

lemma formatAll_without_failed:
  assumes "i < length ids" and "fetchSheetData e (ids ! i) = Inl err"
  shows "formatAllSheetDataForContext e (Some ids) =
           ''Knowledge Base Information:\<newline>'' @
           concat (map (\<lambda>sheetId. sheets_loop e [] [sheetId]) (take i ids @ drop (Suc i) ids))"
proof -
  have ids: "ids = take i ids @ ids ! i # drop (Suc i) ids"
    using assms(1) by (rule id_take_nth_drop)
  have "ids \<noteq> []"
    using assms(1) by auto
  then have "formatAllSheetDataForContext e (Some ids) =
               sheets_loop e ''Knowledge Base Information:\<newline>'' ids"
    by (cases ids) (simp_all add: formatAllSheetDataForContext_def)
  also have "\<dots> = ''Knowledge Base Information:\<newline>'' @
               concat (map (\<lambda>sheetId. sheets_loop e [] [sheetId]) ids)"
    by (rule sheets_loop_concat)
  also have "concat (map (\<lambda>sheetId. sheets_loop e [] [sheetId]) ids) =
               concat (map (\<lambda>sheetId. sheets_loop e [] [sheetId])
                 (take i ids @ ids ! i # drop (Suc i) ids))"
    using ids by simp
  also have "\<dots> = concat (map (\<lambda>sheetId. sheets_loop e [] [sheetId])
                 (take i ids @ drop (Suc i) ids))"
    using failed_sheet_adds_nothing [OF assms(2)] by simp
  finally show ?thesis .
qed

text \<open>
  Claim C6. When the fetch of one of the configured sheets fails, the knowledge block
  is the label followed by what each of the other sheets contributes, in order, and
  nothing for the failed one; the block is part of the prompt, and the turn ends with
  the response event once the completion backend has answered.
\<close>

theorem failed_sheet_omitted:
  assumes "socket_id \<in> set (sessions w)" and "settings w = Some gs"
    and "knowledgeBaseSheetIds gs = Some ids"
    and "i < length ids" and "fetchSheetData e (ids ! i) = Inl err"
    and "chat_create e (formattedMessages e gs
           (Message_findAll socket_id (Message_create e socket_id ''user'' message w)))
         = Inr (Some raw)"
  shows "formatAllSheetDataForContext e (Some ids) =
           ''Knowledge Base Information:\<newline>'' @
           concat (map (\<lambda>sheetId. sheets_loop e [] [sheetId]) (take i ids @ drop (Suc i) ids))
         \<and> (''system'', ''Additional Context:\<newline>'' @ formatAllSheetDataForContext e (Some ids))
             \<in> set (formattedMessages e gs
                   (Message_findAll socket_id (Message_create e socket_id ''user'' message w)))
         \<and> emitted (on_message e socket_id message w) =
             emitted w @ [Typing ''assistant'', StopTyping ''assistant'',
                          Response (limit_length raw)]"
proof -
  have "non_empty (knowledgeBaseSheetIds gs)"
    using assms(3,4) by (auto simp: non_empty_def)
  then have "(''system'', ''Additional Context:\<newline>'' @ formatAllSheetDataForContext e (Some ids))
             \<in> set (formattedMessages e gs
                   (Message_findAll socket_id (Message_create e socket_id ''user'' message w)))"
    using assms(3) by (simp add: formattedMessages_def Let_def)
  moreover have "emitted (on_message e socket_id message w) =
             emitted w @ [Typing ''assistant'', StopTyping ''assistant'',
                          Response (limit_length raw)]"
    unfolding on_message_reply [OF assms(1,2,6)]
    by (simp add: emit_def Message_create_def)
  ultimately show ?thesis
    using formatAll_without_failed [OF assms(4,5)] by simp
qed

theorem failed_sheet_omitted_witness:
  "fetchSheetData example_env ([''sheetA'', ''sheetB''] ! 0) = Inl ApiError
   \<and> formatAllSheetDataForContext example_env (Some [''sheetA'', ''sheetB'']) =
       ''Knowledge Base Information:\<newline>'' @ sheets_loop example_env [] [''sheetB'']
   \<and> sheets_loop example_env [] [''sheetB''] =
       ''\<newline>Data from Sheet sheetB:\<newline>item: tea, price: 3\<newline>item: milk, price: \<newline>''
   \<and> emitted (on_message example_env ''sock'' ''hi'' example_world) =
       [Typing ''assistant'', StopTyping ''assistant'', Response ''Hello'']"
proof -
  have h1: "''sock'' \<in> set (sessions example_world)"
    by (simp add: example_world_def)
  have h2: "settings example_world = Some example_settings"
    by (simp add: example_world_def)
  have h3: "knowledgeBaseSheetIds example_settings = Some [''sheetA'', ''sheetB'']"
    by (simp add: example_settings_def)
  have h4: "0 < length [''sheetA'', ''sheetB'']"
    by simp
  have h5: "fetchSheetData example_env ([''sheetA'', ''sheetB''] ! 0) = Inl ApiError"
    by (simp add: fetchSheetData_def example_env_def)
  have h6: "chat_create example_env (formattedMessages example_env example_settings
              (Message_findAll ''sock'' (Message_create example_env ''sock'' ''user'' ''hi'' example_world)))
            = Inr (Some ''Hello'')"
    by (simp add: example_env_def)
  have b: "sheets_loop example_env [] [''sheetB''] =
       ''\<newline>Data from Sheet sheetB:\<newline>item: tea, price: 3\<newline>item: milk, price: \<newline>''"
    by (simp add: fetchSheetData_def example_env_def rowData_def cell_or_empty_def)
  have "emitted example_world = []"
    by (simp add: example_world_def)
  moreover have "limit_length ''Hello'' = ''Hello''"
    by (simp add: limit_length_def MAX_LENGTH_def)
  ultimately show ?thesis
    using failed_sheet_omitted [OF h1 h2 h3 h4 h5 h6] h5 b by simp
qed

section \<open>The exported row\<close>

lemma find_desc_max:
  assumes "sorted_wrt (\<lambda>a b. timestamp b \<le> timestamp a) vs" and "find P vs = Some v"
  shows "v \<in> set vs \<and> P v \<and> (\<forall>u\<in>set vs. P u \<longrightarrow> timestamp u \<le> timestamp v)"
  using assms
proof (induction vs)
  case Nil
  then show ?case by simp
next
  case (Cons a vs)
  show ?case
  proof (cases "P a")
    case True
    with Cons.prems show ?thesis by auto
  next
    case False
    with Cons show ?thesis by auto
  qed
qed

lemma set_ChatVariable_findAll:
  "set (ChatVariable_findAll sid w) = {v \<in> set (variables w). sessionId v = sid}"
  by (auto simp: ChatVariable_findAll_def)

lemma sorted_ChatVariable_findAll:
  "sorted_wrt (\<lambda>a b. timestamp b \<le> timestamp a) (ChatVariable_findAll sid w)"
proof -
  have "sorted (map timestamp (sort_key timestamp (filter (\<lambda>v. sessionId v = sid) (variables w))))"
    by (rule sorted_sort_key)
  then have "sorted_wrt (\<lambda>a b. timestamp a \<le> timestamp b)
               (sort_key timestamp (filter (\<lambda>v. sessionId v = sid) (variables w)))"
    by (simp add: sorted_map)
  then show ?thesis
    by (simp add: ChatVariable_findAll_def sorted_wrt_rev)
qed

lemma configured_headers_settings:
  "settings w' = settings w \<Longrightarrow> configured_headers w' = configured_headers w"
  by (simp add: configured_headers_def)

lemma target_of_settings:
  "settings w' = settings w \<Longrightarrow> target_of w' = target_of w"
  by (simp add: target_of_def)

lemma write_appends:
  assumes "target_of w = Some target" and "ChatVariable_findAll sid w \<noteq> []"
  shows "writeVariablesToSpreadsheet sid w =
           w\<lparr>appended_rows := appended_rows w @
               [(target, row_for (configured_headers w) (ChatVariable_findAll sid w))]\<rparr>"
  using assms by (simp add: writeVariablesToSpreadsheet_def Let_def)

lemma row_for_cell:
  assumes "i < length hs"
  shows "if \<exists>v\<in>set (variables w). sessionId v = sid \<and> variableName v = hs ! i
         then \<exists>v\<in>set (variables w). sessionId v = sid \<and> variableName v = hs ! i
                \<and> row_for hs (ChatVariable_findAll sid w) ! i = variableValue v
                \<and> (\<forall>u\<in>set (variables w). sessionId u = sid \<and> variableName u = hs ! i
                      \<longrightarrow> timestamp u \<le> timestamp v)
         else row_for hs (ChatVariable_findAll sid w) ! i = []"
proof (cases "find (\<lambda>v. variableName v = hs ! i) (ChatVariable_findAll sid w)")
  case None
  then have "\<not> (\<exists>v\<in>set (variables w). sessionId v = sid \<and> variableName v = hs ! i)"
    by (auto simp: find_None_iff set_ChatVariable_findAll)
  moreover have "row_for hs (ChatVariable_findAll sid w) ! i = []"
    using assms None by (simp add: row_for_def)
  ultimately show ?thesis by auto
next
  case (Some v)
  from find_desc_max [OF sorted_ChatVariable_findAll Some]
  have v: "v \<in> set (variables w)" "sessionId v = sid" "variableName v = hs ! i"
    "\<forall>u\<in>set (variables w). sessionId u = sid \<and> variableName u = hs ! i
        \<longrightarrow> timestamp u \<le> timestamp v"
    by (auto simp: set_ChatVariable_findAll)
  moreover have "row_for hs (ChatVariable_findAll sid w) ! i = variableValue v"
    using assms Some by (simp add: row_for_def)
  ultimately show ?thesis by auto
qed

lemma write_without_records:
  assumes "\<not> (\<exists>v\<in>set (variables w). sessionId v = sid)"
  shows "writeVariablesToSpreadsheet sid w = w"
proof -
  have "set (ChatVariable_findAll sid w) = {}"
    using assms by (auto simp: set_ChatVariable_findAll)
  then have "ChatVariable_findAll sid w = []"
    by simp
  then show ?thesis
    by (simp add: writeVariablesToSpreadsheet_def split: option.splits)
qed

lemma row_for_same_records:
  assumes same: "set (variables w') = set (variables w)"
    and ties: "\<forall>u\<in>set (variables w). \<forall>v\<in>set (variables w).
                 sessionId u = sid \<and> sessionId v = sid \<and> variableName u = variableName v
                 \<and> timestamp u = timestamp v \<longrightarrow> variableValue u = variableValue v"
  shows "row_for hs (ChatVariable_findAll sid w') = row_for hs (ChatVariable_findAll sid w)"
proof (rule nth_equalityI)
  show "length (row_for hs (ChatVariable_findAll sid w')) =
        length (row_for hs (ChatVariable_findAll sid w))"
    by (simp add: row_for_def)
next
  fix i
  assume "i < length (row_for hs (ChatVariable_findAll sid w'))"
  then have i: "i < length hs"
    by (simp add: row_for_def)
  let ?c = "row_for hs (ChatVariable_findAll sid w) ! i"
  let ?c' = "row_for hs (ChatVariable_findAll sid w') ! i"
  show "?c' = ?c"
  proof (cases "\<exists>v\<in>set (variables w). sessionId v = sid \<and> variableName v = hs ! i")
    case False
    with row_for_cell [OF i, of w sid] have "?c = []"
      by simp
    moreover from False row_for_cell [OF i, of w' sid] have "?c' = []"
      by (simp add: same)
    ultimately show ?thesis by simp
  next
    case True
    with row_for_cell [OF i, of w sid] obtain v where
      v: "v \<in> set (variables w)" "sessionId v = sid" "variableName v = hs ! i"
        "?c = variableValue v"
        "\<forall>u\<in>set (variables w). sessionId u = sid \<and> variableName u = hs ! i
            \<longrightarrow> timestamp u \<le> timestamp v"
      by auto
    from True row_for_cell [OF i, of w' sid] obtain v' where
      v': "v' \<in> set (variables w)" "sessionId v' = sid" "variableName v' = hs ! i"
        "?c' = variableValue v'"
        "\<forall>u\<in>set (variables w). sessionId u = sid \<and> variableName u = hs ! i
            \<longrightarrow> timestamp u \<le> timestamp v'"
      by (auto simp: same)
    have "timestamp v \<le> timestamp v'" and "timestamp v' \<le> timestamp v"
      using v v' by auto
    then have "timestamp v' = timestamp v"
      by simp
    moreover from ties v'(1) have
      "\<forall>x\<in>set (variables w).
         sessionId v' = sid \<and> sessionId x = sid \<and> variableName v' = variableName x
         \<and> timestamp v' = timestamp x \<longrightarrow> variableValue v' = variableValue x"
      by (rule bspec)
    then have
      "sessionId v' = sid \<and> sessionId v = sid \<and> variableName v' = variableName v
         \<and> timestamp v' = timestamp v \<longrightarrow> variableValue v' = variableValue v"
      using v(1) by (rule bspec)
    ultimately have "variableValue v' = variableValue v"
      using v(2,3) v'(2,3) by simp
    with v(4) v'(4) show ?thesis by simp
  qed
qed

text \<open>
  Claim C4, amended. With a target sheet configured, a session that has no record
  exports nothing: the export leaves everything as it was. A session with at least one
  record hands exactly one row to the target sheet. The row has one cell for each
  configured field, in the configured order. The cell of a field is the value of a
  record of the session with that field's name whose timestamp no other such record
  exceeds, and the empty string when the session has no record with that name. The row
  depends on the records only, not on the order the table holds them in, whenever two
  records of the session with the same name and the same timestamp hold the same value;
  records of one field with different timestamps are such.
\<close>

theorem exported_row_columns:
  assumes "target_of w = Some target"
  shows "if \<exists>v\<in>set (variables w). sessionId v = sid
         then \<exists>row.
           appended_rows (writeVariablesToSpreadsheet sid w) = appended_rows w @ [(target, row)]
           \<and> length row = length (configured_headers w)
           \<and> (\<forall>i<length row.
                if \<exists>v\<in>set (variables w). sessionId v = sid
                      \<and> variableName v = configured_headers w ! i
                then \<exists>v\<in>set (variables w). sessionId v = sid
                       \<and> variableName v = configured_headers w ! i
                       \<and> row ! i = variableValue v
                       \<and> (\<forall>u\<in>set (variables w). sessionId u = sid
                              \<and> variableName u = configured_headers w ! i
                            \<longrightarrow> timestamp u \<le> timestamp v)
                else row ! i = [])
           \<and> (\<forall>w'. settings w' = settings w \<and> set (variables w') = set (variables w)
                    \<and> (\<forall>u\<in>set (variables w). \<forall>v\<in>set (variables w).
                          sessionId u = sid \<and> sessionId v = sid
                          \<and> variableName u = variableName v \<and> timestamp u = timestamp v
                          \<longrightarrow> variableValue u = variableValue v)
                 \<longrightarrow> appended_rows (writeVariablesToSpreadsheet sid w') =
                       appended_rows w' @ [(target, row)])
         else writeVariablesToSpreadsheet sid w = w"
proof (cases "\<exists>v\<in>set (variables w). sessionId v = sid")
  case False
  then show ?thesis
    using write_without_records [of w sid] by simp
next
  case True
  let ?row = "row_for (configured_headers w) (ChatVariable_findAll sid w)"
  have ne: "ChatVariable_findAll sid w \<noteq> []"
    using True set_ChatVariable_findAll [of sid w] by force
  have a: "appended_rows (writeVariablesToSpreadsheet sid w) = appended_rows w @ [(target, ?row)]"
    by (simp add: write_appends [OF assms ne])
  have b: "length ?row = length (configured_headers w)"
    by (simp add: row_for_def)
  have c: "\<forall>i<length ?row.
              if \<exists>v\<in>set (variables w). sessionId v = sid
                    \<and> variableName v = configured_headers w ! i
              then \<exists>v\<in>set (variables w). sessionId v = sid
                     \<and> variableName v = configured_headers w ! i
                     \<and> ?row ! i = variableValue v
                     \<and> (\<forall>u\<in>set (variables w). sessionId u = sid
                            \<and> variableName u = configured_headers w ! i
                          \<longrightarrow> timestamp u \<le> timestamp v)
              else ?row ! i = []"
    using row_for_cell [of _ "configured_headers w" w sid] b by simp
  have d: "appended_rows (writeVariablesToSpreadsheet sid w') = appended_rows w' @ [(target, ?row)]"
    if w': "settings w' = settings w" "set (variables w') = set (variables w)"
      "\<forall>u\<in>set (variables w). \<forall>v\<in>set (variables w).
         sessionId u = sid \<and> sessionId v = sid
         \<and> variableName u = variableName v \<and> timestamp u = timestamp v
         \<longrightarrow> variableValue u = variableValue v" for w'
  proof -
    have t: "target_of w' = Some target"
      using assms target_of_settings [OF w'(1)] by simp
    have "set (ChatVariable_findAll sid w') = set (ChatVariable_findAll sid w)"
      using w'(2) by (simp add: set_ChatVariable_findAll)
    with ne have ne': "ChatVariable_findAll sid w' \<noteq> []"
      by (metis set_empty)
    show ?thesis
      by (simp add: write_appends [OF t ne'] configured_headers_settings [OF w'(1)]
            row_for_same_records [OF w'(2,3)])
  qed
  from a b c d have "\<exists>row.
           appended_rows (writeVariablesToSpreadsheet sid w) = appended_rows w @ [(target, row)]
           \<and> length row = length (configured_headers w)
           \<and> (\<forall>i<length row.
                if \<exists>v\<in>set (variables w). sessionId v = sid
                      \<and> variableName v = configured_headers w ! i
                then \<exists>v\<in>set (variables w). sessionId v = sid
                       \<and> variableName v = configured_headers w ! i
                       \<and> row ! i = variableValue v
                       \<and> (\<forall>u\<in>set (variables w). sessionId u = sid
                              \<and> variableName u = configured_headers w ! i
                            \<longrightarrow> timestamp u \<le> timestamp v)
                else row ! i = [])
           \<and> (\<forall>w'. settings w' = settings w \<and> set (variables w') = set (variables w)
                    \<and> (\<forall>u\<in>set (variables w). \<forall>v\<in>set (variables w).
                          sessionId u = sid \<and> sessionId v = sid
                          \<and> variableName u = variableName v \<and> timestamp u = timestamp v
                          \<longrightarrow> variableValue u = variableValue v)
                 \<longrightarrow> appended_rows (writeVariablesToSpreadsheet sid w') =
                       appended_rows w' @ [(target, row)])"
    by blast
  with True show ?thesis
    by simp
qed

text \<open>
  At a session whose two fields were written in the same millisecond, and whose name
  was written once before: the row is the same for the table and for the table turned
  round.
\<close>

theorem exported_row_columns_witness:
  "target_of recorded_world = Some ''target''
   \<and> configured_headers recorded_world = [''name'', ''email'']
   \<and> appended_rows (writeVariablesToSpreadsheet ''sock'' recorded_world) =
       [(''target'', [''Ann'', ''a@x.com''])]
   \<and> appended_rows (writeVariablesToSpreadsheet ''sock''
         (recorded_world\<lparr>variables := rev (variables recorded_world)\<rparr>)) =
       [(''target'', [''Ann'', ''a@x.com''])]"
proof -
  have h1: "target_of recorded_world = Some ''target''"
    by (simp add: target_of_def recorded_world_def example_world_def example_settings_def)
  have h2: "\<exists>v\<in>set (variables recorded_world). sessionId v = ''sock''"
    by (simp add: recorded_world_def)
  have hs: "configured_headers recorded_world = [''name'', ''email'']"
    by (simp add: configured_headers_def recorded_world_def example_world_def example_settings_def)
  have none: "appended_rows recorded_world = []"
    by (simp add: recorded_world_def example_world_def)
  have ties: "\<forall>u\<in>set (variables recorded_world). \<forall>v\<in>set (variables recorded_world).
                sessionId u = ''sock'' \<and> sessionId v = ''sock''
                \<and> variableName u = variableName v \<and> timestamp u = timestamp v
                \<longrightarrow> variableValue u = variableValue v"
    by (simp add: recorded_world_def)
  have ev: "appended_rows (writeVariablesToSpreadsheet ''sock'' recorded_world) =
              [(''target'', [''Ann'', ''a@x.com''])]"
    by code_simp
  note ex = exported_row_columns [OF h1, of "''sock''", unfolded if_P [OF h2]]
  from ex show ?thesis
  proof (elim exE conjE)
    fix row
    assume r: "appended_rows (writeVariablesToSpreadsheet ''sock'' recorded_world) =
          appended_rows recorded_world @ [(''target'', row)]"
      and p: "\<forall>w'. settings w' = settings recorded_world
              \<and> set (variables w') = set (variables recorded_world)
              \<and> (\<forall>u\<in>set (variables recorded_world). \<forall>v\<in>set (variables recorded_world).
                    sessionId u = ''sock'' \<and> sessionId v = ''sock''
                    \<and> variableName u = variableName v \<and> timestamp u = timestamp v
                    \<longrightarrow> variableValue u = variableValue v)
            \<longrightarrow> appended_rows (writeVariablesToSpreadsheet ''sock'' w') =
                 appended_rows w' @ [(''target'', row)]"
    from r ev none have row: "row = [''Ann'', ''a@x.com'']"
      by simp
    have turned: "settings (recorded_world\<lparr>variables := rev (variables recorded_world)\<rparr>) =
            settings recorded_world
          \<and> set (variables (recorded_world\<lparr>variables := rev (variables recorded_world)\<rparr>)) =
            set (variables recorded_world)"
      by simp
    have "appended_rows (writeVariablesToSpreadsheet ''sock''
            (recorded_world\<lparr>variables := rev (variables recorded_world)\<rparr>)) =
          appended_rows (recorded_world\<lparr>variables := rev (variables recorded_world)\<rparr>)
            @ [(''target'', row)]"
      using spec [OF p, of "recorded_world\<lparr>variables := rev (variables recorded_world)\<rparr>"]
        turned ties by blast
    with row none h1 hs ev show ?thesis
      by simp
  qed
qed

text \<open>
  The claim as written fails for a session without records: a target sheet and two
  fields are configured, and no row is exported.
\<close>

theorem no_records_no_row:
  "target_of example_world = Some ''target''
   \<and> configured_headers example_world = [''name'', ''email'']
   \<and> appended_rows (writeVariablesToSpreadsheet ''sock'' example_world) = []"
  by (simp add: target_of_def configured_headers_def writeVariablesToSpreadsheet_def
        ChatVariable_findAll_def example_world_def example_settings_def)

section \<open>The fields an extraction run records\<close>

lemma keys_set_property:
  "fst ` set (set_property obj k v) = insert k (fst ` set obj)"
proof (induction obj)
  case Nil
  then show ?case by simp
next
  case (Cons a obj)
  then show ?case
    by (cases a) (simp add: insert_commute)
qed

lemma distinct_set_property:
  "distinct (map fst obj) \<Longrightarrow> distinct (map fst (set_property obj k v))"
proof (induction obj)
  case Nil
  then show ?case by simp
next
  case (Cons a obj)
  then show ?case
    by (cases a) (auto simp: keys_set_property)
qed

lemma map_of_set_property:
  "map_of (set_property obj k v) = (map_of obj)(k \<mapsto> v)"
proof (induction obj)
  case Nil
  then show ?case by simp
next
  case (Cons a obj)
  then show ?case
    by (cases a) (auto simp: fun_eq_iff)
qed

lemma keys_foldl_members:
  "fst ` set (foldl (\<lambda>obj (k, v). set_property obj k v) obj ms) =
     fst ` set obj \<union> fst ` set ms"
proof (induction ms arbitrary: obj)
  case Nil
  then show ?case by simp
next
  case (Cons m ms)
  then show ?case
    by (cases m) (simp add: keys_set_property)
qed

lemma distinct_foldl_members:
  "distinct (map fst obj) \<Longrightarrow>
   distinct (map fst (foldl (\<lambda>obj (k, v). set_property obj k v) obj ms))"
proof (induction ms arbitrary: obj)
  case Nil
  then show ?case by simp
next
  case (Cons m ms)
  then show ?case
    by (cases m) (simp add: distinct_set_property)
qed

lemma keys_JSON_object: "set (own_keys (JSON_object ms)) = fst ` set ms"
  using keys_foldl_members [of "[]" ms] by (simp add: JSON_object_def own_keys_def)

lemma distinct_JSON_object: "distinct (map fst (JSON_object ms))"
  using distinct_foldl_members [of "[]" ms] by (simp add: JSON_object_def)

lemma keys_foldl_empty:
  "fst ` set (foldl (\<lambda>obj h. set_property obj h (JStr [])) obj hs) =
     fst ` set obj \<union> set hs"
  by (induction hs arbitrary: obj) (simp_all add: keys_set_property)

lemma distinct_foldl_empty:
  "distinct (map fst obj) \<Longrightarrow>
   distinct (map fst (foldl (\<lambda>obj h. set_property obj h (JStr [])) obj hs))"
  by (induction hs arbitrary: obj) (simp_all add: distinct_set_property)

lemma map_of_foldl_empty:
  "map_of (foldl (\<lambda>obj h. set_property obj h (JStr [])) obj hs) k =
     (if k \<in> set hs then Some (JStr []) else map_of obj k)"
proof (induction hs arbitrary: obj)
  case Nil
  then show ?case by simp
next
  case (Cons h hs)
  then show ?case
    by (simp add: map_of_set_property)
qed

lemma set_missingHeaders:
  "set (missingHeaders headers obj) =
     {h \<in> set headers. h \<notin> set (own_keys obj) \<and> h \<notin> set Object_prototype_keys}"
  by (auto simp: missingHeaders_def js_in_def)

lemma keys_add_missing:
  "fst ` set (add_missing headers obj) =
     set (own_keys obj) \<union> {h \<in> set headers. h \<notin> set Object_prototype_keys}"
proof -
  have "fst ` set (add_missing headers obj) =
          fst ` set obj \<union> set (missingHeaders headers obj)"
    by (simp add: add_missing_def keys_foldl_empty)
  also have "\<dots> = set (own_keys obj) \<union> {h \<in> set headers. h \<notin> set Object_prototype_keys}"
    unfolding set_missingHeaders by (auto simp: own_keys_def)
  finally show ?thesis .
qed

lemma distinct_add_missing:
  "distinct (map fst obj) \<Longrightarrow> distinct (map fst (add_missing headers obj))"
  by (simp add: add_missing_def distinct_foldl_empty)

lemma add_missing_empty_value:
  assumes "h \<in> set headers" and "h \<notin> set (own_keys obj)" and "h \<notin> set Object_prototype_keys"
  shows "(h, JStr []) \<in> set (add_missing headers obj)"
proof -
  have "h \<in> set (missingHeaders headers obj)"
    using assms by (simp add: set_missingHeaders)
  then have "map_of (add_missing headers obj) h = Some (JStr [])"
    by (simp add: add_missing_def map_of_foldl_empty)
  then show ?thesis
    by (rule map_of_SomeD)
qed

lemma set_Object_entries: "set (Object_entries obj) = set obj"
  by (auto simp: Object_entries_def)

lemma distinct_Object_entries:
  assumes "distinct (map fst obj)"
  shows "distinct (map fst (Object_entries obj))"
proof -
  have d: "distinct obj"
    using assms by (rule distinct_map [THEN iffD1, THEN conjunct1])
  have i: "inj_on fst (set obj)"
    using assms by (simp add: distinct_map)
  have "distinct (Object_entries obj)"
    using d by (auto simp: Object_entries_def)
  moreover have "inj_on fst (set (Object_entries obj))"
    using i by (simp add: set_Object_entries)
  ultimately show ?thesis
    by (simp add: distinct_map)
qed

lemma values_set_property:
  "snd ` set (set_property obj k v) \<subseteq> insert v (snd ` set obj)"
proof (induction obj)
  case Nil
  then show ?case by simp
next
  case (Cons a obj)
  then show ?case
    by (cases a) auto
qed

lemma values_foldl_members:
  "snd ` set (foldl (\<lambda>obj (k, v). set_property obj k v) obj ms) \<subseteq>
     snd ` set obj \<union> snd ` set ms"
proof (induction ms arbitrary: obj)
  case Nil
  then show ?case by simp
next
  case (Cons m ms)
  obtain k v where m: "m = (k, v)"
    by (cases m)
  have "snd ` set (foldl (\<lambda>obj (k, v). set_property obj k v) obj (m # ms)) \<subseteq>
          snd ` set (set_property obj k v) \<union> snd ` set ms"
    using Cons.IH [of "set_property obj k v"] by (simp add: m)
  also have "\<dots> \<subseteq> insert v (snd ` set obj) \<union> snd ` set ms"
    using values_set_property [of obj k v] by blast
  finally show ?case
    by (simp add: m)
qed

lemma values_foldl_empty:
  "snd ` set (foldl (\<lambda>obj h. set_property obj h (JStr [])) obj hs) \<subseteq>
     insert (JStr []) (snd ` set obj)"
proof (induction hs arbitrary: obj)
  case Nil
  then show ?case by auto
next
  case (Cons h hs)
  have "snd ` set (foldl (\<lambda>obj h. set_property obj h (JStr [])) obj (h # hs)) \<subseteq>
          insert (JStr []) (snd ` set (set_property obj h (JStr [])))"
    using Cons.IH [of "set_property obj h (JStr [])"] by simp
  also have "\<dots> \<subseteq> insert (JStr []) (snd ` set obj)"
    using values_set_property [of obj h "JStr []"] by blast
  finally show ?case .
qed

lemma values_extracted:
  "snd ` set (Object_entries (add_missing headers (JSON_object members))) \<subseteq>
     insert (JStr []) (snd ` set members)"
proof -
  have "snd ` set (add_missing headers (JSON_object members)) \<subseteq>
          insert (JStr []) (snd ` set (JSON_object members))"
    by (simp add: add_missing_def values_foldl_empty)
  moreover have "snd ` set (JSON_object members) \<subseteq> snd ` set members"
    using values_foldl_members [of "[]" members] by (simp add: JSON_object_def)
  ultimately show ?thesis
    unfolding set_Object_entries by blast
qed

lemma entries_convert:
  assumes "\<forall>v\<in>snd ` set members. \<exists>s. js_String v = Inr s"
  shows "\<forall>v\<in>snd ` set (Object_entries (add_missing headers (JSON_object members))).
           \<exists>s. js_String v = Inr s"
proof
  fix v
  assume "v \<in> snd ` set (Object_entries (add_missing headers (JSON_object members)))"
  then have "v = JStr [] \<or> v \<in> snd ` set members"
    using values_extracted [of headers members] by blast
  then show "\<exists>s. js_String v = Inr s"
  proof
    assume "v = JStr []"
    then show ?thesis by simp
  next
    assume "v \<in> snd ` set members"
    with assms show ?thesis by (rule bspec)
  qed
qed

lemma save_variables_prefix:
  "\<exists>new k. variables (snd (save_variables e sid entries w)) = variables w @ new
           \<and> map variableName new = map fst (take k entries)"
proof (induction entries arbitrary: w)
  case Nil
  then show ?case by simp
next
  case (Cons entry entries)
  obtain n v where entry: "entry = (n, v)"
    by (cases entry)
  show ?case
  proof (cases "js_String v")
    case (Inl err)
    then have "variables (snd (save_variables e sid (entry # entries) w)) = variables w @ []"
      by (simp add: entry)
    moreover have "map variableName [] = map fst (take 0 (entry # entries))"
      by simp
    ultimately show ?thesis
      by blast
  next
    case (Inr val)
    from Cons.IH [of "ChatVariable_create e sid n val w"] obtain new k where
      new: "variables (snd (save_variables e sid entries (ChatVariable_create e sid n val w))) =
              variables (ChatVariable_create e sid n val w) @ new"
        "map variableName new = map fst (take k entries)"
      by blast
    let ?r = "\<lparr>sessionId = sid, variableName = n, variableValue = val,
               timestamp = clock e (created w)\<rparr>"
    have "variables (snd (save_variables e sid (entry # entries) w)) = variables w @ (?r # new)"
      using new(1) by (simp add: entry Inr ChatVariable_create_def)
    moreover have "map variableName (?r # new) = map fst (take (Suc k) (entry # entries))"
      using new(2) by (simp add: entry)
    ultimately show ?thesis
      by blast
  qed
qed

lemma save_variables_all:
  assumes "\<forall>v\<in>snd ` set entries. \<exists>s. js_String v = Inr s"
  shows "fst (save_variables e sid entries w) = None
         \<and> (\<exists>new. variables (snd (save_variables e sid entries w)) = variables w @ new
               \<and> map (\<lambda>v. (sessionId v, variableName v, Inr (variableValue v))) new =
                 map (\<lambda>(n, v). (sid, n, js_String v)) entries)"
  using assms
proof (induction entries arbitrary: w)
  case Nil
  then show ?case by simp
next
  case (Cons entry entries)
  obtain n v where entry: "entry = (n, v)"
    by (cases entry)
  from Cons.prems obtain val where val: "js_String v = Inr val"
    by (auto simp: entry)
  from Cons.prems have "\<forall>v\<in>snd ` set entries. \<exists>s. js_String v = Inr s"
    by simp
  from Cons.IH [OF this, of "ChatVariable_create e sid n val w"] obtain new where
    new: "fst (save_variables e sid entries (ChatVariable_create e sid n val w)) = None"
      "variables (snd (save_variables e sid entries (ChatVariable_create e sid n val w))) =
         variables (ChatVariable_create e sid n val w) @ new"
      "map (\<lambda>v. (sessionId v, variableName v, Inr (variableValue v))) new =
         map (\<lambda>(n, v). (sid, n, js_String v)) entries"
    by blast
  let ?r = "\<lparr>sessionId = sid, variableName = n, variableValue = val,
             timestamp = clock e (created w)\<rparr>"
  have "fst (save_variables e sid (entry # entries) w) = None"
    using new(1) by (simp add: entry val)
  moreover have "variables (snd (save_variables e sid (entry # entries) w)) = variables w @ (?r # new)"
    using new(2) by (simp add: entry val ChatVariable_create_def)
  moreover have "map (\<lambda>v. (sessionId v, variableName v, Inr (variableValue v))) (?r # new) =
                 map (\<lambda>(n, v). (sid, n, js_String v)) (entry # entries)"
    using new(3) by (simp add: entry val)
  ultimately show ?case
    by blast
qed

text \<open>A value that does not convert ends the run: the error is rethrown, nothing is recorded.\<close>

lemma own_toString_throws:
  "fst (analyzeChatForVariables own_toString_env ''sock'' example_world) = Inl TypeError
   \<and> variables (snd (analyzeChatForVariables own_toString_env ''sock'' example_world)) = []
   \<and> length (extraction_requests
        (snd (analyzeChatForVariables own_toString_env ''sock'' example_world))) = 1"
  by code_simp

lemma analyze_snd:
  assumes "configured_headers w \<noteq> []"
    and "extraction_create e (extractionPrompt (configured_headers w))
           (join ''\<newline>'' (map content (Message_findAll sid w))) = Inr members"
  shows "snd (analyzeChatForVariables e sid w) =
           snd (save_variables e sid
              (Object_entries (add_missing (configured_headers w) (JSON_object members)))
              (w\<lparr>extraction_requests := extraction_requests w @
                   [(extractionPrompt (configured_headers w),
                     join ''\<newline>'' (map content (Message_findAll sid w)))]\<rparr>))"
  using assms
  by (simp add: analyzeChatForVariables_def Let_def split: prod.splits option.splits)

lemma analyze_success:
  assumes "configured_headers w \<noteq> []"
    and "extraction_create e (extractionPrompt (configured_headers w))
           (join ''\<newline>'' (map content (Message_findAll sid w))) = Inr members"
    and "\<forall>v\<in>snd ` set members. \<exists>s. js_String v = Inr s"
  shows "fst (analyzeChatForVariables e sid w) =
           Inr (add_missing (configured_headers w) (JSON_object members))"
proof -
  let ?entries = "Object_entries (add_missing (configured_headers w) (JSON_object members))"
  have "\<forall>v\<in>snd ` set ?entries. \<exists>s. js_String v = Inr s"
    using assms(3) by (rule entries_convert)
  from save_variables_all [OF this] have
    "fst (save_variables e sid ?entries
       (w\<lparr>extraction_requests := extraction_requests w @
            [(extractionPrompt (configured_headers w),
              join ''\<newline>'' (map content (Message_findAll sid w)))]\<rparr>)) = None"
    by blast
  then show ?thesis
    using assms(1,2)
    by (auto simp: analyzeChatForVariables_def Let_def split: prod.splits option.splits)
qed

text \<open>
  Claim C1, amended. In an extraction run with a field list that is not empty, every
  record the run adds is named by a key of the backend's parsed answer or by a
  configured field, and no two of them share a name; a key the backend returns can be
  stored whether it is a configured field or not. When every value of the answer
  converts to a string, every key of the answer is recorded, and so is every configured
  field that is not a name an object inherits, with the empty string as value when the
  answer lacks it.
\<close>

theorem persisted_field_names:
  assumes "configured_headers w = headers" and "headers \<noteq> []"
    and "extraction_create e (extractionPrompt headers)
           (join ''\<newline>'' (map content (Message_findAll sid w))) = Inr members"
  shows "\<exists>new. variables (snd (analyzeChatForVariables e sid w)) = variables w @ new
         \<and> distinct (map variableName new)
         \<and> set (map variableName new) \<subseteq> set (map fst members) \<union> set headers
         \<and> ((\<forall>v\<in>snd ` set members. \<exists>s. js_String v = Inr s) \<longrightarrow>
              set (map fst members) \<subseteq> set (map variableName new)
              \<and> (\<forall>h\<in>set headers.
                    h \<notin> set Object_prototype_keys \<longrightarrow> h \<in> set (map variableName new))
              \<and> (\<forall>h\<in>set headers.
                    h \<notin> set Object_prototype_keys \<and> h \<notin> set (map fst members) \<longrightarrow>
                    (\<exists>v\<in>set new. sessionId v = sid \<and> variableName v = h
                        \<and> variableValue v = [])))"
proof -
  let ?obj = "add_missing headers (JSON_object members)"
  let ?entries = "Object_entries ?obj"
  let ?w1 = "w\<lparr>extraction_requests := extraction_requests w @
                 [(extractionPrompt headers,
                   join ''\<newline>'' (map content (Message_findAll sid w)))]\<rparr>"
  have an: "snd (analyzeChatForVariables e sid w) = snd (save_variables e sid ?entries ?w1)"
    using analyze_snd [of w e sid members] assms by simp
  from save_variables_prefix [of e sid ?entries ?w1] obtain new k where
    new: "variables (snd (save_variables e sid ?entries ?w1)) = variables ?w1 @ new"
      "map variableName new = map fst (take k ?entries)"
    by blast
  have keys: "fst ` set ?entries =
                fst ` set members \<union> {h \<in> set headers. h \<notin> set Object_prototype_keys}"
    by (simp add: set_Object_entries keys_add_missing keys_JSON_object)
  have a: "variables (snd (analyzeChatForVariables e sid w)) = variables w @ new"
    using an new(1) by simp
  have "distinct (map fst ?entries)"
    by (intro distinct_Object_entries distinct_add_missing distinct_JSON_object)
  then have "distinct (take k (map fst ?entries))"
    by (rule distinct_take)
  then have b: "distinct (map variableName new)"
    by (simp add: new(2) take_map)
  have "set (map variableName new) \<subseteq> fst ` set ?entries"
    using set_take_subset [of k ?entries] by (auto simp: new(2))
  then have c: "set (map variableName new) \<subseteq> set (map fst members) \<union> set headers"
    unfolding keys by auto
  have d: "set (map fst members) \<subseteq> set (map variableName new)
           \<and> (\<forall>h\<in>set headers.
                 h \<notin> set Object_prototype_keys \<longrightarrow> h \<in> set (map variableName new))
           \<and> (\<forall>h\<in>set headers.
                 h \<notin> set Object_prototype_keys \<and> h \<notin> set (map fst members) \<longrightarrow>
                 (\<exists>v\<in>set new. sessionId v = sid \<and> variableName v = h
                     \<and> variableValue v = []))"
    if conv: "\<forall>v\<in>snd ` set members. \<exists>s. js_String v = Inr s"
  proof -
    have "\<forall>v\<in>snd ` set ?entries. \<exists>s. js_String v = Inr s"
      using conv by (rule entries_convert)
    from save_variables_all [OF this, of e sid ?w1] obtain new' where
      new': "variables (snd (save_variables e sid ?entries ?w1)) = variables ?w1 @ new'"
        "map (\<lambda>v. (sessionId v, variableName v, Inr (variableValue v))) new' =
           map (\<lambda>(n, v). (sid, n, js_String v)) ?entries"
      by blast
    from new(1) new'(1) have same: "new' = new"
      by simp
    have "map variableName new = map fst ?entries"
      using arg_cong [OF new'(2), of "map (fst \<circ> snd)"]
      by (simp add: same comp_def split_def)
    then have names: "set (map variableName new) = fst ` set ?entries"
      by simp
    have d1: "set (map fst members) \<subseteq> set (map variableName new)"
      unfolding names keys by auto
    have d2: "\<forall>h\<in>set headers.
                 h \<notin> set Object_prototype_keys \<longrightarrow> h \<in> set (map variableName new)"
      unfolding names keys by auto
    have d3: "\<exists>v\<in>set new. sessionId v = sid \<and> variableName v = h \<and> variableValue v = []"
      if h: "h \<in> set headers" "h \<notin> set Object_prototype_keys" "h \<notin> set (map fst members)"
      for h
    proof -
      have "(h, JStr []) \<in> set ?entries"
        using h by (simp add: set_Object_entries add_missing_empty_value keys_JSON_object)
      then have "(sid, h, Inr []) \<in> set (map (\<lambda>(n, v). (sid, n, js_String v)) ?entries)"
        by force
      then have "(sid, h, Inr []) \<in>
                   set (map (\<lambda>v. (sessionId v, variableName v,
                                 (Inr (variableValue v) :: js_error + string))) new)"
        by (simp only: new'(2) [unfolded same])
      then show ?thesis
        by auto
    qed
    from d1 d2 d3 show ?thesis
      by blast
  qed
  from a b c d show ?thesis
    by blast
qed

theorem persisted_field_names_witness:
  "configured_headers example_world = [''name'', ''email'']
   \<and> map (\<lambda>v. (variableName v, variableValue v))
        (variables (snd (analyzeChatForVariables empty_answer_env ''sock'' example_world))) =
       [(''name'', []), (''email'', [])]"
proof -
  have h1: "configured_headers example_world = [''name'', ''email'']"
    by (simp add: configured_headers_def example_world_def example_settings_def)
  have h2: "[''name'', ''email''] \<noteq> []"
    by simp
  have h3: "extraction_create empty_answer_env (extractionPrompt [''name'', ''email''])
              (join ''\<newline>'' (map content (Message_findAll ''sock'' example_world))) = Inr []"
    by (simp add: empty_answer_env_def)
  from persisted_field_names [OF h1 h2 h3] obtain new where
    new: "variables (snd (analyzeChatForVariables empty_answer_env ''sock'' example_world)) =
            variables example_world @ new"
    by blast
  have "map (\<lambda>v. (variableName v, variableValue v))
          (variables (snd (analyzeChatForVariables empty_answer_env ''sock'' example_world))) =
        [(''name'', []), (''email'', [])]"
    by code_simp
  with h1 new show ?thesis
    by simp
qed

text \<open>
  The claim as written fails when the backend returns a key outside the field list:
  with the fields \<open>name\<close> and \<open>email\<close> configured, a record named \<open>age\<close> is stored.
\<close>

theorem extra_key_persisted:
  "configured_headers example_world = [''name'', ''email'']
   \<and> map variableName
        (variables (snd (analyzeChatForVariables extra_key_env ''sock'' example_world))) =
       [''name'', ''age'', ''email'']"
  by code_simp

text \<open>
  Claim C5 at a field list that holds \<open>constructor\<close>, with a backend that answers
  with the empty object: \<open>'constructor' in extractedVariables\<close> is true through the
  prototype, the field is not counted as missing, and the mapping returned has no entry
  for it; no record is stored for it either.
\<close>

theorem inherited_name_not_added:
  "configured_headers inherited_name_world = [''constructor'', ''name'']
   \<and> fst (analyzeChatForVariables empty_answer_env ''sock'' inherited_name_world) =
       Inr [(''name'', JStr [])]
   \<and> map variableName
        (variables (snd (analyzeChatForVariables empty_answer_env ''sock'' inherited_name_world))) =
       [''name'']"
  by code_simp

section \<open>Teardown, twice\<close>

lemma save_variables_frame:
  "settings (snd (save_variables e sid es w)) = settings w
   \<and> messages (snd (save_variables e sid es w)) = messages w
   \<and> sessions (snd (save_variables e sid es w)) = sessions w
   \<and> extraction_requests (snd (save_variables e sid es w)) = extraction_requests w
   \<and> appended_rows (snd (save_variables e sid es w)) = appended_rows w
   \<and> emitted (snd (save_variables e sid es w)) = emitted w"
proof (induction es arbitrary: w)
  case Nil
  then show ?case by simp
next
  case (Cons entry es)
  obtain n v where entry: "entry = (n, v)"
    by (cases entry)
  show ?case
  proof (cases "js_String v")
    case (Inl err)
    then show ?thesis by (simp add: entry)
  next
    case (Inr val)
    with Cons.IH [of "ChatVariable_create e sid n val w"] show ?thesis
      by (simp add: entry ChatVariable_create_def)
  qed
qed

lemma write_frame:
  "settings (writeVariablesToSpreadsheet sid w) = settings w
   \<and> messages (writeVariablesToSpreadsheet sid w) = messages w
   \<and> sessions (writeVariablesToSpreadsheet sid w) = sessions w
   \<and> variables (writeVariablesToSpreadsheet sid w) = variables w
   \<and> extraction_requests (writeVariablesToSpreadsheet sid w) = extraction_requests w
   \<and> emitted (writeVariablesToSpreadsheet sid w) = emitted w"
  by (simp add: writeVariablesToSpreadsheet_def Let_def split: option.splits)

lemma write_one_row:
  assumes "target_of w = Some target" and "\<exists>v\<in>set (variables w). sessionId v = sid"
  shows "length (appended_rows (writeVariablesToSpreadsheet sid w)) = Suc (length (appended_rows w))"
proof -
  have "ChatVariable_findAll sid w \<noteq> []"
    using assms(2) set_ChatVariable_findAll [of sid w] by force
  then show ?thesis
    by (simp add: write_appends [OF assms(1)])
qed

lemma findAll_after_destroy:
  "Message_findAll sid (ChatSession_destroy sid (Message_destroy sid w)) = []"
proof -
  have "filter (\<lambda>m. msg_sessionId m = sid) (filter (\<lambda>m. msg_sessionId m \<noteq> sid) (messages w)) = []"
    by (simp add: filter_empty_conv)
  then show ?thesis
    by (simp add: Message_findAll_def ChatSession_destroy_def Message_destroy_def)
qed

lemma Message_findAll_emit: "Message_findAll sid (emit ev w) = Message_findAll sid w"
  by (simp add: Message_findAll_def emit_def)

lemma analyze_world:
  "snd (analyzeChatForVariables e sid w) =
     (if configured_headers w = [] then w
      else case extraction_create e (extractionPrompt (configured_headers w))
                  (join ''\<newline>'' (map content (Message_findAll sid w))) of
             Inl err \<Rightarrow>
               w\<lparr>extraction_requests := extraction_requests w @
                    [(extractionPrompt (configured_headers w),
                      join ''\<newline>'' (map content (Message_findAll sid w)))]\<rparr>
           | Inr members \<Rightarrow>
               snd (save_variables e sid
                 (Object_entries (add_missing (configured_headers w) (JSON_object members)))
                 (w\<lparr>extraction_requests := extraction_requests w @
                      [(extractionPrompt (configured_headers w),
                        join ''\<newline>'' (map content (Message_findAll sid w)))]\<rparr>)))"
  by (simp add: analyzeChatForVariables_def Let_def split: sum.splits prod.splits option.splits)

lemma analyze_frame:
  "settings (snd (analyzeChatForVariables e sid w)) = settings w
   \<and> appended_rows (snd (analyzeChatForVariables e sid w)) = appended_rows w
   \<and> emitted (snd (analyzeChatForVariables e sid w)) = emitted w"
  unfolding analyze_world by (simp add: save_variables_frame split: sum.splits)

lemma analyze_requests:
  assumes "configured_headers w \<noteq> []"
  shows "length (extraction_requests (snd (analyzeChatForVariables e sid w))) =
           Suc (length (extraction_requests w))"
  unfolding analyze_world using assms by (simp add: save_variables_frame split: sum.splits)

lemma analyze_keeps_records:
  "set (variables w) \<subseteq> set (variables (snd (analyzeChatForVariables e sid w)))"
proof -
  have "set (variables w) \<subseteq>
          set (variables (snd (save_variables e sid es (w\<lparr>extraction_requests := r\<rparr>))))"
    for es r
    using save_variables_prefix [of e sid es "w\<lparr>extraction_requests := r\<rparr>"] by auto
  then show ?thesis
    unfolding analyze_world by (simp split: sum.splits)
qed

lemma teardown_fst:
  "fst (teardown e sid w) =
     (case fst (analyzeChatForVariables e sid w) of Inl err \<Rightarrow> Some err | Inr obj \<Rightarrow> None)"
  by (simp add: teardown_def split: prod.splits sum.splits)

lemma teardown_snd:
  "snd (teardown e sid w) =
     (case fst (analyzeChatForVariables e sid w) of
        Inl err \<Rightarrow> snd (analyzeChatForVariables e sid w)
      | Inr obj \<Rightarrow>
          ChatSession_destroy sid (Message_destroy sid
            (writeVariablesToSpreadsheet sid (snd (analyzeChatForVariables e sid w)))))"
  by (simp add: teardown_def split: prod.splits sum.splits)

lemma teardown_frame:
  "settings (snd (teardown e sid w)) = settings w
   \<and> extraction_requests (snd (teardown e sid w)) =
       extraction_requests (snd (analyzeChatForVariables e sid w))"
  unfolding teardown_snd
  by (simp add: ChatSession_destroy_def Message_destroy_def write_frame analyze_frame
        split: sum.splits)

lemma on_deleteSession_payload:
  "on_deleteSession e sid (Some None) w =
     Inr (emit (case fst (teardown e sid w) of
                  None \<Rightarrow> SessionDeleted sid
                | Some err \<Rightarrow> Error ''Error deleting session'')
            (snd (teardown e sid w)))"
  by (simp add: on_deleteSession_def session_of_def split: prod.splits option.splits)

lemma teardown_effect:
  assumes "configured_headers w \<noteq> []"
    and "extraction_create e (extractionPrompt (configured_headers w))
           (join ''\<newline>'' (map content (Message_findAll sid w))) = Inr members"
    and "\<forall>v\<in>snd ` set members. \<exists>s. js_String v = Inr s"
  shows "fst (teardown e sid w) = None
         \<and> Message_findAll sid (snd (teardown e sid w)) = []
         \<and> emitted (snd (teardown e sid w)) = emitted w
         \<and> variables (snd (teardown e sid w)) = variables (snd (analyzeChatForVariables e sid w))
         \<and> appended_rows (snd (teardown e sid w)) =
             appended_rows (writeVariablesToSpreadsheet sid (snd (analyzeChatForVariables e sid w)))"
proof -
  let ?a = "snd (analyzeChatForVariables e sid w)"
  let ?w' = "ChatSession_destroy sid (Message_destroy sid (writeVariablesToSpreadsheet sid ?a))"
  note an = analyze_success [OF assms]
  have s: "snd (teardown e sid w) = ?w'"
    by (simp add: teardown_snd an)
  have "fst (teardown e sid w) = None"
    by (simp add: teardown_fst an)
  moreover have "Message_findAll sid ?w' = []"
    by (rule findAll_after_destroy)
  moreover have "emitted ?w' = emitted w" "variables ?w' = variables ?a"
    "appended_rows ?w' = appended_rows (writeVariablesToSpreadsheet sid ?a)"
    by (simp_all add: ChatSession_destroy_def Message_destroy_def write_frame analyze_frame)
  ultimately show ?thesis
    by (simp add: s)
qed

lemma two_requests:
  assumes "configured_headers w \<noteq> []"
  shows "length (extraction_requests
           (snd (teardown e' sid (emit ev (snd (teardown e sid w)))))) =
         length (extraction_requests w) + 2"
proof -
  let ?w1 = "emit ev (snd (teardown e sid w))"
  have s1: "settings ?w1 = settings w"
    by (simp add: emit_def teardown_frame)
  then have h1: "configured_headers ?w1 \<noteq> []"
    using assms configured_headers_settings [OF s1] by simp
  have "length (extraction_requests ?w1) = Suc (length (extraction_requests w))"
    by (simp add: emit_def teardown_frame analyze_requests [OF assms])
  moreover have "length (extraction_requests (snd (teardown e' sid ?w1))) =
                 Suc (length (extraction_requests ?w1))"
    by (simp add: teardown_frame analyze_requests [OF h1])
  ultimately show ?thesis
    by simp
qed

lemma two_successful_teardowns:
  assumes "configured_headers w \<noteq> []"
    and "extraction_create e (extractionPrompt (configured_headers w))
           (join ''\<newline>'' (map content (Message_findAll sid w))) = Inr members"
    and "\<forall>v\<in>snd ` set members. \<exists>s. js_String v = Inr s"
    and "extraction_create e' (extractionPrompt (configured_headers w)) [] = Inr members'"
    and "\<forall>v\<in>snd ` set members'. \<exists>s. js_String v = Inr s"
  shows "emitted (snd (teardown e' sid (emit (SessionDeleted sid) (snd (teardown e sid w))))) =
           emitted w @ [SessionDeleted sid]
         \<and> (target_of w = Some target
              \<and> (\<exists>v\<in>set (variables (emit (SessionDeleted sid) (snd (teardown e sid w)))).
                    sessionId v = sid)
            \<longrightarrow> length (appended_rows
                   (snd (teardown e' sid (emit (SessionDeleted sid) (snd (teardown e sid w)))))) =
                  length (appended_rows w) + 2)"
proof -
  let ?a = "snd (analyzeChatForVariables e sid w)"
  let ?w' = "snd (teardown e sid w)"
  let ?w1 = "emit (SessionDeleted sid) ?w'"
  from teardown_effect [OF assms(1,2,3)] have
    w': "Message_findAll sid ?w' = []" "emitted ?w' = emitted w"
      "variables ?w' = variables ?a"
      "appended_rows ?w' = appended_rows (writeVariablesToSpreadsheet sid ?a)"
    by simp_all
  have s1: "settings ?w1 = settings w" "emitted ?w1 = emitted w @ [SessionDeleted sid]"
    "variables ?w1 = variables ?a" "appended_rows ?w1 = appended_rows ?w'"
    using w' by (simp_all add: emit_def teardown_frame)
  have h1: "configured_headers ?w1 \<noteq> []"
    using assms(1) configured_headers_settings [OF s1(1)] by simp
  have h2: "extraction_create e' (extractionPrompt (configured_headers ?w1))
              (join ''\<newline>'' (map content (Message_findAll sid ?w1))) = Inr members'"
    using assms(4) configured_headers_settings [OF s1(1)]
    by (simp add: Message_findAll_emit w'(1))
  let ?b = "snd (analyzeChatForVariables e' sid ?w1)"
  let ?w2 = "snd (teardown e' sid ?w1)"
  from teardown_effect [OF h1 h2 assms(5)] have
    w2: "emitted ?w2 = emitted ?w1"
      "appended_rows ?w2 = appended_rows (writeVariablesToSpreadsheet sid ?b)"
    by simp_all
  have rows: "length (appended_rows ?w2) = length (appended_rows w) + 2"
    if t: "target_of w = Some target"
      and v: "\<exists>v\<in>set (variables ?w1). sessionId v = sid"
  proof -
    have ta: "target_of ?a = Some target"
      using t target_of_settings [of ?a w] by (simp add: analyze_frame)
    have va: "\<exists>v\<in>set (variables ?a). sessionId v = sid"
      using v by (simp add: s1(3))
    have first: "length (appended_rows ?w') = Suc (length (appended_rows w))"
      using write_one_row [OF ta va] by (simp add: w'(4) analyze_frame)
    have tb: "target_of ?b = Some target"
      using t target_of_settings [of ?b ?w1] target_of_settings [OF s1(1)]
      by (simp add: analyze_frame)
    have "set (variables ?w1) \<subseteq> set (variables ?b)"
      by (rule analyze_keeps_records)
    then have vb: "\<exists>v\<in>set (variables ?b). sessionId v = sid"
      using v by auto
    have "length (appended_rows ?w2) = Suc (length (appended_rows ?w1))"
      using write_one_row [OF tb vb] by (simp add: w2(2) analyze_frame)
    with first show ?thesis
      by (simp add: s1(4))
  qed
  from w2(1) s1(2) rows show ?thesis
    by simp
qed

lemma world_after_first_teardown:
  "on_deleteSession example_env ''sock'' (Some None) chatted_world = Inr after_first_teardown"
proof -
  have ok: "fst (teardown example_env ''sock'' chatted_world) = None"
    by code_simp
  have "emit (SessionDeleted ''sock'') (snd (teardown example_env ''sock'' chatted_world)) =
          after_first_teardown"
    by (rule world.equality; (code_simp | simp))
  then show ?thesis
    by (simp add: on_deleteSession_payload ok)
qed

text \<open>
  Claim C2, amended. With a field list that is not empty, a \<open>deleteSession\<close> request
  that carries a payload, followed by the disconnect handler, makes two extraction
  requests in all, one in each handler, whatever the backend answers. The second
  handler throws nothing whenever its own extraction succeeds, that is, the call
  returns and every value of the answer converts to a string. When the extractions of
  both handlers succeed, the second over the transcript the first has emptied, the only
  event sent is the confirmation of the first handler, and two rows are exported when a
  target sheet is configured and the first run left a record for the session.
\<close>

theorem teardown_twice_extracts_twice:
  assumes "configured_headers w \<noteq> []"
  shows "\<exists>w1. on_deleteSession e sid (Some None) w = Inr w1
         \<and> length (extraction_requests (on_disconnect e' sid w1)) =
             length (extraction_requests w) + 2
         \<and> (\<forall>members'.
               extraction_create e' (extractionPrompt (configured_headers w))
                 (join ''\<newline>'' (map content (Message_findAll sid w1))) = Inr members'
               \<and> (\<forall>v\<in>snd ` set members'. \<exists>s. js_String v = Inr s)
             \<longrightarrow> fst (teardown e' sid w1) = None)
         \<and> (\<forall>members members'.
               extraction_create e (extractionPrompt (configured_headers w))
                 (join ''\<newline>'' (map content (Message_findAll sid w))) = Inr members
               \<and> (\<forall>v\<in>snd ` set members. \<exists>s. js_String v = Inr s)
               \<and> extraction_create e' (extractionPrompt (configured_headers w)) [] = Inr members'
               \<and> (\<forall>v\<in>snd ` set members'. \<exists>s. js_String v = Inr s)
             \<longrightarrow> emitted (on_disconnect e' sid w1) = emitted w @ [SessionDeleted sid]
                 \<and> (target_of w = Some target
                      \<and> (\<exists>v\<in>set (variables w1). sessionId v = sid)
                    \<longrightarrow> length (appended_rows (on_disconnect e' sid w1)) =
                          length (appended_rows w) + 2))"
proof -
  let ?ev = "case fst (teardown e sid w) of
               None \<Rightarrow> SessionDeleted sid
             | Some err \<Rightarrow> Error ''Error deleting session''"
  let ?w1 = "emit ?ev (snd (teardown e sid w))"
  have a: "on_deleteSession e sid (Some None) w = Inr ?w1"
    by (rule on_deleteSession_payload)
  have b: "length (extraction_requests (on_disconnect e' sid ?w1)) =
             length (extraction_requests w) + 2"
    unfolding on_disconnect_def by (rule two_requests [OF assms])
  have s1: "settings ?w1 = settings w"
    by (simp add: emit_def teardown_frame)
  have c: "\<forall>members'.
               extraction_create e' (extractionPrompt (configured_headers w))
                 (join ''\<newline>'' (map content (Message_findAll sid ?w1))) = Inr members'
               \<and> (\<forall>v\<in>snd ` set members'. \<exists>s. js_String v = Inr s)
             \<longrightarrow> fst (teardown e' sid ?w1) = None"
  proof (intro allI impI, elim conjE)
    fix members'
    assume call: "extraction_create e' (extractionPrompt (configured_headers w))
          (join ''\<newline>'' (map content (Message_findAll sid ?w1))) = Inr members'"
      and conv: "\<forall>v\<in>snd ` set members'. \<exists>s. js_String v = Inr s"
    have h1: "configured_headers ?w1 \<noteq> []"
      using assms configured_headers_settings [OF s1] by simp
    have h2: "extraction_create e' (extractionPrompt (configured_headers ?w1))
                (join ''\<newline>'' (map content (Message_findAll sid ?w1))) = Inr members'"
      using call configured_headers_settings [OF s1] by simp
    from teardown_effect [OF h1 h2 conv] show "fst (teardown e' sid ?w1) = None"
      by (rule conjunct1)
  qed
  have d: "\<forall>members members'.
               extraction_create e (extractionPrompt (configured_headers w))
                 (join ''\<newline>'' (map content (Message_findAll sid w))) = Inr members
               \<and> (\<forall>v\<in>snd ` set members. \<exists>s. js_String v = Inr s)
               \<and> extraction_create e' (extractionPrompt (configured_headers w)) [] = Inr members'
               \<and> (\<forall>v\<in>snd ` set members'. \<exists>s. js_String v = Inr s)
             \<longrightarrow> emitted (on_disconnect e' sid ?w1) = emitted w @ [SessionDeleted sid]
                 \<and> (target_of w = Some target
                      \<and> (\<exists>v\<in>set (variables ?w1). sessionId v = sid)
                    \<longrightarrow> length (appended_rows (on_disconnect e' sid ?w1)) =
                          length (appended_rows w) + 2)"
  proof (intro allI impI, elim conjE)
    fix members members'
    assume that: "extraction_create e (extractionPrompt (configured_headers w))
          (join ''\<newline>'' (map content (Message_findAll sid w))) = Inr members"
      "\<forall>v\<in>snd ` set members. \<exists>s. js_String v = Inr s"
      "extraction_create e' (extractionPrompt (configured_headers w)) [] = Inr members'"
      "\<forall>v\<in>snd ` set members'. \<exists>s. js_String v = Inr s"
    from teardown_effect [OF assms that(1,2)] have "fst (teardown e sid w) = None"
      by (rule conjunct1)
    then have ev: "?ev = SessionDeleted sid"
      by simp
    show "emitted (on_disconnect e' sid ?w1) = emitted w @ [SessionDeleted sid]
          \<and> (target_of w = Some target
               \<and> (\<exists>v\<in>set (variables ?w1). sessionId v = sid)
             \<longrightarrow> length (appended_rows (on_disconnect e' sid ?w1)) =
                   length (appended_rows w) + 2)"
      unfolding on_disconnect_def ev
      by (rule two_successful_teardowns [OF assms that])
  qed
  from a b c d show ?thesis
    by (intro exI [of _ ?w1] conjI)
qed

theorem teardown_twice_extracts_twice_witness:
  "on_deleteSession example_env ''sock'' (Some None) chatted_world = Inr after_first_teardown
   \<and> target_of chatted_world = Some ''target''
   \<and> length (extraction_requests (on_disconnect example_env ''sock'' after_first_teardown)) = 2
   \<and> fst (teardown example_env ''sock'' after_first_teardown) = None
   \<and> emitted (on_disconnect example_env ''sock'' after_first_teardown) =
       [SessionDeleted ''sock'']
   \<and> length (appended_rows (on_disconnect example_env ''sock'' after_first_teardown)) = 2"
proof -
  have hs: "configured_headers chatted_world = [''name'', ''email'']"
    by (simp add: configured_headers_def chatted_world_def example_world_def example_settings_def)
  have h1: "configured_headers chatted_world \<noteq> []"
    by (simp add: hs)
  note first = world_after_first_teardown
  have m1: "extraction_create example_env (extractionPrompt (configured_headers chatted_world))
              (join ''\<newline>'' (map content (Message_findAll ''sock'' chatted_world))) =
            Inr [(''name'', JStr ''Ann''), (''email'', JStr ''a@x.com'')]
            \<and> (\<forall>v\<in>snd ` set [(''name'', JStr ''Ann''), (''email'', JStr ''a@x.com'')].
                  \<exists>s. js_String v = Inr s)"
    by (simp add: example_env_def Message_findAll_def chatted_world_def example_world_def)
  have m2: "extraction_create example_env (extractionPrompt (configured_headers chatted_world)) [] =
            Inr []
            \<and> (\<forall>v\<in>snd ` set ([] :: (string \<times> json) list). \<exists>s. js_String v = Inr s)"
    by (simp add: example_env_def)
  have m2': "extraction_create example_env (extractionPrompt (configured_headers chatted_world))
               (join ''\<newline>'' (map content (Message_findAll ''sock'' after_first_teardown))) =
             Inr []
             \<and> (\<forall>v\<in>snd ` set ([] :: (string \<times> json) list). \<exists>s. js_String v = Inr s)"
    by (simp add: example_env_def Message_findAll_def after_first_teardown_def)
  have t: "target_of chatted_world = Some ''target''"
    by (simp add: target_of_def chatted_world_def example_world_def example_settings_def)
  have v: "\<exists>v\<in>set (variables after_first_teardown). sessionId v = ''sock''"
    by (simp add: after_first_teardown_def)
  have z: "extraction_requests chatted_world = []" "emitted chatted_world = []"
    "appended_rows chatted_world = []"
    by (simp_all add: chatted_world_def example_world_def)
  note th = teardown_twice_extracts_twice
    [OF h1, of example_env "''sock''" example_env "''target''"]
  from th show ?thesis
  proof (elim exE conjE)
    fix w1
    assume w1: "on_deleteSession example_env ''sock'' (Some None) chatted_world = Inr w1"
      and n: "length (extraction_requests (on_disconnect example_env ''sock'' w1)) =
                length (extraction_requests chatted_world) + 2"
      and ok: "\<forall>members'.
                 extraction_create example_env (extractionPrompt (configured_headers chatted_world))
                   (join ''\<newline>'' (map content (Message_findAll ''sock'' w1))) = Inr members'
                 \<and> (\<forall>v\<in>snd ` set members'. \<exists>s. js_String v = Inr s)
               \<longrightarrow> fst (teardown example_env ''sock'' w1) = None"
      and both: "\<forall>members members'.
                 extraction_create example_env (extractionPrompt (configured_headers chatted_world))
                   (join ''\<newline>'' (map content (Message_findAll ''sock'' chatted_world))) =
                   Inr members
                 \<and> (\<forall>v\<in>snd ` set members. \<exists>s. js_String v = Inr s)
                 \<and> extraction_create example_env
                     (extractionPrompt (configured_headers chatted_world)) [] = Inr members'
                 \<and> (\<forall>v\<in>snd ` set members'. \<exists>s. js_String v = Inr s)
               \<longrightarrow> emitted (on_disconnect example_env ''sock'' w1) =
                     emitted chatted_world @ [SessionDeleted ''sock'']
                   \<and> (target_of chatted_world = Some ''target''
                        \<and> (\<exists>v\<in>set (variables w1). sessionId v = ''sock'')
                      \<longrightarrow> length (appended_rows (on_disconnect example_env ''sock'' w1)) =
                            length (appended_rows chatted_world) + 2)"
    from first w1 have eq: "w1 = after_first_teardown"
      by simp
    from spec [OF ok, of "[]"] m2'
    have c: "fst (teardown example_env ''sock'' after_first_teardown) = None"
      by (simp add: eq)
    from spec [OF spec [OF both, of "[(''name'', JStr ''Ann''), (''email'', JStr ''a@x.com'')]"],
                of "[]"] m1 m2
    have d: "emitted (on_disconnect example_env ''sock'' w1) =
               emitted chatted_world @ [SessionDeleted ''sock'']
             \<and> (target_of chatted_world = Some ''target''
                  \<and> (\<exists>v\<in>set (variables w1). sessionId v = ''sock'')
                \<longrightarrow> length (appended_rows (on_disconnect example_env ''sock'' w1)) =
                      length (appended_rows chatted_world) + 2)"
      by blast
    from first t n c d v z show ?thesis
      by (simp add: eq)
  qed
qed

text \<open>
  The claim as written fails: after the two handlers the backend has been asked twice
  and the target sheet has two rows, the second one holding empty cells.
\<close>

theorem two_teardowns_two_cycles:
  "on_deleteSession example_env ''sock'' (Some None) chatted_world = Inr after_first_teardown
   \<and> length (extraction_requests (on_disconnect example_env ''sock'' after_first_teardown)) = 2
   \<and> appended_rows (on_disconnect example_env ''sock'' after_first_teardown) =
     [(''target'', [''Ann'', ''a@x.com'']), (''target'', [[], []])]"
proof -
  have "length (extraction_requests (on_disconnect example_env ''sock'' after_first_teardown)) = 2"
    by code_simp
  moreover have "appended_rows (on_disconnect example_env ''sock'' after_first_teardown) =
     [(''target'', [''Ann'', ''a@x.com'']), (''target'', [[], []])]"
    by code_simp
  ultimately show ?thesis
    using world_after_first_teardown by simp
qed

section \<open>The order of the fetches\<close>

lemma sheets_loop_traced_eq:
  "sheets_loop_traced e (ctx, log) ids =
     (sheets_loop e ctx ids, log @ concat (map (\<lambda>r. [Started r, Settled r]) ids))"
  by (induction ids arbitrary: ctx log) simp_all

lemma urls_loop_traced_eq:
  "urls_loop_traced e (ctx, log) urls =
     (urls_loop e ctx urls, log @ concat (map (\<lambda>r. [Started r, Settled r]) urls))"
  by (induction urls arbitrary: ctx log) simp_all

lemma outstanding_in_sequence:
  "outstanding_from [] (concat (map (\<lambda>r. [Started r, Settled r]) ids)) = []"
  by (induction ids) simp_all

lemma peak_in_sequence:
  "peak_from [] p (concat (map (\<lambda>r. [Started r, Settled r]) ids)) =
     (if ids = [] then p else max p 1)"
  by (induction ids arbitrary: p) simp_all

text \<open>
  Claim C9, amended. The references of a category are fetched one after the other, in
  the configured order: the log of a loop is, for each reference in turn, its start
  followed by its settling, so the fetch of a reference starts only when the one before
  has settled, with a value or with an error, and at most one fetch is outstanding at
  any moment. When the loop returns, no fetch is outstanding, and what it returns is
  the context assembled from all of them; this is the text that goes into the prompt.
\<close>

theorem fetches_in_sequence:
  "snd (sheets_loop_traced e (ctx, []) ids) = concat (map (\<lambda>r. [Started r, Settled r]) ids)
   \<and> peak_outstanding (snd (sheets_loop_traced e (ctx, []) ids)) = (if ids = [] then 0 else 1)
   \<and> outstanding (snd (sheets_loop_traced e (ctx, []) ids)) = []
   \<and> fst (sheets_loop_traced e (ctx, []) ids) = sheets_loop e ctx ids
   \<and> formatAllSheetDataForContext e (Some (r # rest)) =
       fst (sheets_loop_traced e (''Knowledge Base Information:\<newline>'', []) (r # rest))
   \<and> snd (urls_loop_traced e (ctx, []) urls) = concat (map (\<lambda>r. [Started r, Settled r]) urls)
   \<and> peak_outstanding (snd (urls_loop_traced e (ctx, []) urls)) = (if urls = [] then 0 else 1)
   \<and> outstanding (snd (urls_loop_traced e (ctx, []) urls)) = []
   \<and> fst (urls_loop_traced e (ctx, []) urls) = urls_loop e ctx urls
   \<and> formatAllWebpageContentForContext e (Some (r # rest)) =
       fst (urls_loop_traced e (''Webpage Knowledge Base:\<newline>'', []) (r # rest))"
proof -
  have "formatAllSheetDataForContext e (Some (r # rest)) =
          sheets_loop e ''Knowledge Base Information:\<newline>'' (r # rest)"
    by (simp add: formatAllSheetDataForContext_def)
  moreover have "formatAllWebpageContentForContext e (Some (r # rest)) =
          urls_loop e ''Webpage Knowledge Base:\<newline>'' (r # rest)"
    by (simp add: formatAllWebpageContentForContext_def)
  moreover have "peak_from [] 0 (concat (map (\<lambda>r. [Started r, Settled r]) xs)) =
                   (if xs = [] then 0 else 1)" for xs
    by (simp add: peak_in_sequence)
  ultimately show ?thesis
    by (simp add: sheets_loop_traced_eq urls_loop_traced_eq outstanding_def
          peak_outstanding_def outstanding_in_sequence)
qed

text \<open>
  The claim as written fails: with two sheets configured, the second fetch starts after
  the first has settled, and the two are never outstanding together.
\<close>

theorem second_fetch_after_first:
  "snd (sheets_loop_traced example_env (''Knowledge Base Information:\<newline>'', [])
         [''sheetA'', ''sheetB'']) =
     [Started ''sheetA'', Settled ''sheetA'', Started ''sheetB'', Settled ''sheetB'']
   \<and> peak_outstanding
         (snd (sheets_loop_traced example_env (''Knowledge Base Information:\<newline>'', [])
                [''sheetA'', ''sheetB''])) = 1"
  by (simp add: sheets_loop_traced_eq peak_outstanding_def)

end
